theory Spec2Isabelle
  imports Main
begin

section \<open>Strings and character classes\<close>

text \<open>
  A Python \<open>str\<close> is a sequence of code points. It is modelled as a HOL \<open>string\<close> whose
  characters are read as the code points U+0000 .. U+00FF, so \<open>length\<close> counts code points
  as Python's \<open>len\<close> does. The classes \<open>\d\<close>, \<open>\s\<close> and \<open>\w\<close> of the \<open>re\<close> module are
  written out for that range.
\<close>

definition code :: "char \<Rightarrow> nat" where
  "code c = of_char c"

definition rng :: "char \<Rightarrow> char \<Rightarrow> char \<Rightarrow> bool" where
  "rng a b c = (code a \<le> code c \<and> code c \<le> code b)"

definition dquote :: char where
  "dquote = CHR 0x22"

definition bslash :: char where
  "bslash = CHR 0x5C"

definition newline :: char where
  "newline = CHR 0x0A"

text \<open>\<open>.\<close> without the DOTALL flag: every character but the line feed.\<close>

definition dot :: "char \<Rightarrow> bool" where
  "dot c = (c \<noteq> newline)"

text \<open>\<open>\d\<close>: the decimal digits (category Nd); below U+0100 these are \<open>0\<close> .. \<open>9\<close>.\<close>

definition digit :: "char \<Rightarrow> bool" where
  "digit c = rng CHR ''0'' CHR ''9'' c"

text \<open>\<open>\s\<close>: what \<open>str.isspace\<close> accepts; \<open>\S\<close> is its complement.\<close>

definition space :: "char \<Rightarrow> bool" where
  "space c = ((9 \<le> code c \<and> code c \<le> 13) \<or> (28 \<le> code c \<and> code c \<le> 32)
     \<or> code c = 0x85 \<or> code c = 0xA0)"

definition nonspace :: "char \<Rightarrow> bool" where
  "nonspace c = (\<not> space c)"

text \<open>\<open>\w\<close>: what \<open>str.isalnum\<close> accepts, and the underscore.\<close>

definition word :: "char \<Rightarrow> bool" where
  "word c = (rng CHR ''a'' CHR ''z'' c \<or> rng CHR ''A'' CHR ''Z'' c \<or> digit c \<or> c = CHR ''_''
     \<or> code c \<in> {0xAA, 0xB2, 0xB3, 0xB5, 0xB9, 0xBA, 0xBC, 0xBD, 0xBE}
     \<or> (0xC0 \<le> code c \<and> code c \<noteq> 0xD7 \<and> code c \<noteq> 0xF7))"

text \<open>The classes the patterns of the handler spell out.\<close>

definition not_chr :: "char \<Rightarrow> char \<Rightarrow> bool" where
  "not_chr x c = (c \<noteq> x)"

definition is_chr :: "char \<Rightarrow> char \<Rightarrow> bool" where
  "is_chr x c = (c = x)"

definition name_char :: "char \<Rightarrow> bool" where
  "name_char c = (rng CHR ''a'' CHR ''z'' c \<or> rng CHR ''A'' CHR ''Z'' c \<or> digit c \<or> c = CHR ''_'')"

definition build_char :: "char \<Rightarrow> bool" where
  "build_char c = (rng CHR ''a'' CHR ''z'' c \<or> digit c \<or> c = CHR ''_'')"

definition word_or_dot :: "char \<Rightarrow> bool" where
  "word_or_dot c = (word c \<or> c = CHR ''.'')"

section \<open>The fragment of \<open>re\<close> the handler uses\<close>

text \<open>
  Every pattern of the handler is built from literal text, a greedy repetition of one
  character class (\<open>+\<close>, \<open>*\<close>, \<open>{m,n}\<close>), an optional group \<open>(...)?\<close>, named groups
  \<open>(?P<name>...)\<close> and numbered groups \<open>(...)\<close>, whose captures the handler never reads.
  A match object is the map from group names to captured text.
\<close>

type_synonym match = "string \<rightharpoonup> string"

datatype rx =
    Lit string
  | Rep "char \<Rightarrow> bool" nat "nat option"
  | Opt rx
  | Seq rx rx
  | Group string rx
  | NGroup rx

fun below :: "nat \<Rightarrow> nat option \<Rightarrow> bool" where
  "below n None = True"
| "below n (Some h) = (n < h)"

text \<open>
  The matcher backtracks as \<open>re\<close> does: \<open>k\<close> is what remains to be matched after the
  current item. A greedy repetition first tries one more character and falls back to
  stopping where it is; an optional group is first tried and then skipped. The first
  way through that reaches the end of the pattern is the match.
\<close>

fun rep_match :: "(char \<Rightarrow> bool) \<Rightarrow> nat \<Rightarrow> nat option \<Rightarrow> nat \<Rightarrow> string
    \<Rightarrow> (string \<Rightarrow> 'a option) \<Rightarrow> 'a option" where
  "rep_match p lo hi n [] k = (if lo \<le> n then k [] else None)"
| "rep_match p lo hi n (x # xs) k =
     (case (if p x \<and> below n hi then rep_match p lo hi (Suc n) xs k else None) of
        Some r \<Rightarrow> Some r
      | None \<Rightarrow> if lo \<le> n then k (x # xs) else None)"

fun rx_match :: "rx \<Rightarrow> string \<Rightarrow> match \<Rightarrow> (string \<Rightarrow> match \<Rightarrow> match option)
    \<Rightarrow> match option" where
  "rx_match (Lit l) s m k = (if take (length l) s = l then k (drop (length l) s) m else None)"
| "rx_match (Rep p lo hi) s m k = rep_match p lo hi 0 s (\<lambda>s'. k s' m)"
| "rx_match (Opt r) s m k = (case rx_match r s m k of Some x \<Rightarrow> Some x | None \<Rightarrow> k s m)"
| "rx_match (Seq a b) s m k = rx_match a s m (\<lambda>s' m'. rx_match b s' m' k)"
| "rx_match (Group g r) s m k =
     rx_match r s m (\<lambda>s' m'. k s' (m'(g \<mapsto> take (length s - length s') s)))"
| "rx_match (NGroup r) s m k = rx_match r s m k"

fun cat :: "rx list \<Rightarrow> rx" where
  "cat [] = Lit []"
| "cat (r # rs) = Seq r (cat rs)"

definition at_end :: "string \<Rightarrow> match \<Rightarrow> match option" where
  "at_end s m = (if s = [] then Some m else None)"

text \<open>\<open>Pattern.fullmatch\<close>: the whole string has to be consumed.\<close>

definition fullmatch :: "rx \<Rightarrow> string \<Rightarrow> match option" where
  "fullmatch r s = rx_match r s Map.empty at_end"

datatype error = ValueError string | TypeError string | LookupError string

text \<open>
  \<open>m['group']\<close>. In every pattern of the handler the named groups lie on the only way
  through the pattern, so a match always binds them; a missing group is the lookup
  error of \<open>re\<close> and \<open>parse\<close>.
\<close>

definition getitem :: "match \<Rightarrow> string \<Rightarrow> error + string" where
  "getitem m g = (case m g of None \<Rightarrow> Inl (LookupError g) | Some v \<Rightarrow> Inr v)"

text \<open>Decimal text of a number, as the messages of the interpreter print it.\<close>

fun str_nat :: "nat \<Rightarrow> string" where
  "str_nat n = (if n < 10 then [char_of (48 + n)]
     else str_nat (n div 10) @ [char_of (48 + n mod 10)])"

declare str_nat.simps [simp del]

text \<open>
  \<open>int(text)\<close> on the text of a \<open>\d+\<close> group: the decimal value. The interpreter limits
  the length of the text it converts: \<open>max_str_digits\<close> is what
  \<open>sys.get_int_max_str_digits()\<close> returns, 4300 unless changed and 0 for no limit (an
  interpreter without the limit behaves as 0); texts of up to 640 digits are never
  refused. A longer text beyond the limit raises \<open>ValueError\<close>. Any text that is not a
  run of digits is reported as the \<open>ValueError\<close> that \<open>int\<close> raises on malformed input;
  the signs, blanks and underscores that \<open>int\<close> also accepts cannot come out of \<open>\d+\<close>.
\<close>

definition digit_val :: "char \<Rightarrow> int" where
  "digit_val c = int (code c) - 48"

definition exceeds_int_limit :: "nat \<Rightarrow> string \<Rightarrow> bool" where
  "exceeds_int_limit max_str_digits s =
     (0 < max_str_digits \<and> 640 < length s \<and> max_str_digits < length s)"

definition py_int :: "nat \<Rightarrow> string \<Rightarrow> error + int" where
  "py_int max_str_digits s =
     (if s \<noteq> [] \<and> list_all digit s then
        if exceeds_int_limit max_str_digits s
        then Inl (ValueError (''Exceeds the limit ('' @ str_nat max_str_digits
               @ '' digits) for integer string conversion: value has '' @ str_nat (length s)
               @ '' digits; use sys.set_int_max_str_digits() to increase the limit''))
        else Inr (foldl (\<lambda>acc c. 10 * acc + digit_val c) 0 s)
      else Inl (ValueError (''invalid literal for int() with base 10: ''
             @ [CHR 0x27] @ s @ [CHR 0x27])))"

section \<open>The framework's record and clock\<close>

text \<open>
  Modelled from the spec: the record class \<open>Info\<close> and the enumeration \<open>InfoSource\<close> belong
  to the host framework (the module \<open>mcdreforged.info_reactor.info\<close> that the source
  imports) and are not part of the source tree. The record carries the source channel
  (server output or console input), the raw line, the timestamp, the logging level, the
  residual content and the player a chat line is attributed to; a new record has the
  raw line as content and nothing else set. The framework's properties are:
  \<open>is_from_console\<close>, the source is the console; \<open>is_from_server\<close>, the source is the
  server; \<open>is_player\<close>, from the server and attributed to a player; \<open>is_user\<close>, from the
  console or from a player. The content is always a string where the handler reads it.
  The field \<open>min\<close> is written \<open>min'\<close>.
\<close>

datatype InfoSource = SERVER | CONSOLE

record Info =
  hour :: "int option"
  min' :: "int option"
  sec :: "int option"
  raw_content :: string
  content :: string
  player :: "string option"
  source :: InfoSource
  logging_level :: "string option"

definition Info_init :: "InfoSource \<Rightarrow> string \<Rightarrow> Info" where
  "Info_init src raw = \<lparr>hour = None, min' = None, sec = None, raw_content = raw,
     content = raw, player = None, source = src, logging_level = None\<rparr>"

definition is_from_console :: "Info \<Rightarrow> bool" where
  "is_from_console info = (source info = CONSOLE)"

definition is_from_server :: "Info \<Rightarrow> bool" where
  "is_from_server info = (source info = SERVER)"

definition is_player :: "Info \<Rightarrow> bool" where
  "is_player info = (is_from_server info \<and> player info \<noteq> None)"

definition is_user :: "Info \<Rightarrow> bool" where
  "is_user info = (is_from_console info \<or> is_player info)"

text \<open>What \<open>time.localtime(time.time())\<close> returns: the reading of the clock at the call.\<close>

record struct_time =
  tm_hour :: int
  tm_min :: int
  tm_sec :: int

section \<open>The handler\<close>

definition get_name :: string where
  "get_name = ''pumpkin_handler''"

definition get_stop_command :: string where
  "get_stop_command = ''stop''"

subsection \<open>Content parsing\<close>

text \<open>\<^verbatim>\<open>\[(?P<logging>[^]]+)\](?: \((\d+)\))? (?P<content>.*)\<close>\<close>

definition get_content_parsing_formatter :: rx where
  "get_content_parsing_formatter =
     cat [Lit ''['', Group ''logging'' (Rep (not_chr CHR '']'') 1 None), Lit '']'',
          Opt (cat [Lit '' ('', NGroup (Rep digit 1 None), Lit '')'']),
          Lit '' '', Group ''content'' (Rep dot 0 None)]"

text \<open>
  A parser is a compiled pattern or a \<open>parse.Parser\<close>; the latter belongs to a library
  and is given by its \<open>parse\<close> method.
\<close>

datatype parser = RePattern rx | ParseParser "string \<Rightarrow> match option"

fun run_parser :: "parser \<Rightarrow> string \<Rightarrow> match option" where
  "run_parser (ParseParser f) s = f s"
| "run_parser (RePattern r) s = fullmatch r s"

text \<open>The formatter of this class is one compiled pattern, so the list has one entry.\<close>

definition get_content_parsers :: "parser list" where
  "get_content_parsers = [RePattern get_content_parsing_formatter]"

text \<open>The \<open>for ... break ... else\<close> loop: the first parser that matches wins.\<close>

fun first_parsed :: "parser list \<Rightarrow> string \<Rightarrow> match option" where
  "first_parsed [] s = None"
| "first_parsed (p # ps) s =
     (case run_parser p s of Some parsed \<Rightarrow> Some parsed | None \<Rightarrow> first_parsed ps s)"

text \<open>
  \<open>_content_parse\<close> updates the record it is given, so the model returns the record as
  the call leaves it, beside the outcome. The parsers are those of the class the method
  is called on.
\<close>

definition content_parse_with :: "parser list \<Rightarrow> struct_time \<Rightarrow> Info \<Rightarrow> (error + unit) \<times> Info" where
  "content_parse_with parsers t info =
     (case first_parsed parsers (content info) of
        None \<Rightarrow> (Inl (ValueError (''Unrecognized input: '' @ content info)), info)
      | Some parsed \<Rightarrow>
          (let info1 = info\<lparr>hour := Some (tm_hour t), min' := Some (tm_min t),
                 sec := Some (tm_sec t)\<rparr>
           in case getitem parsed ''logging'' of
                Inl e \<Rightarrow> (Inl e, info1)
              | Inr lg \<Rightarrow>
                  (let info2 = info1\<lparr>logging_level := Some lg\<rparr>
                   in case getitem parsed ''content'' of
                        Inl e \<Rightarrow> (Inl e, info2)
                      | Inr ct \<Rightarrow> (Inr (), info2\<lparr>content := ct\<rparr>))))"

definition content_parse :: "struct_time \<Rightarrow> Info \<Rightarrow> (error + unit) \<times> Info" where
  "content_parse t info = content_parse_with get_content_parsers t info"

subsection \<open>Chat lines\<close>

text \<open>
  The one chat pattern: the literal text \<^verbatim>\<open><chat> \<close> (its angle brackets are escaped
  in the source), then \<^verbatim>\<open>(?P<name>[^:]+): (?P<message>.*)\<close>
\<close>

definition get_player_message_parsing_formatter :: "rx list" where
  "get_player_message_parsing_formatter =
     [cat [Lit ''<chat> '', Group ''name'' (Rep (not_chr CHR '':'') 1 None), Lit '': '',
           Group ''message'' (Rep dot 0 None)]]"

definition get_player_message_parsers :: "parser list" where
  "get_player_message_parsers = map RePattern get_player_message_parsing_formatter"

text \<open>\<^verbatim>\<open>[a-zA-Z0-9_]{3,16}\<close>\<close>

definition player_name_regex :: rx where
  "player_name_regex = Rep name_char 3 (Some 16)"

definition verify_player_name :: "string \<Rightarrow> bool" where
  "verify_player_name name = (fullmatch player_name_regex name \<noteq> None)"

subsection \<open>Outbound messages\<close>

text \<open>
  \<open>json.dumps(text, ensure_ascii=False, separators=(',', ':'))\<close> on a string: the quoted
  text, with the quote, the backslash and the control characters escaped and every
  other character written as it is.
\<close>

definition hex_digit :: "nat \<Rightarrow> char" where
  "hex_digit n = ''0123456789abcdef'' ! (n mod 16)"

definition json_escape :: "char \<Rightarrow> string" where
  "json_escape c =
     (if c = bslash then [bslash, bslash]
      else if c = dquote then [bslash, dquote]
      else if c = CHR 0x08 then [bslash, CHR ''b'']
      else if c = CHR 0x0C then [bslash, CHR ''f'']
      else if c = CHR 0x0A then [bslash, CHR ''n'']
      else if c = CHR 0x0D then [bslash, CHR ''r'']
      else if c = CHR 0x09 then [bslash, CHR ''t'']
      else if code c < 0x20
        then [bslash, CHR ''u'', CHR ''0'', CHR ''0'', hex_digit (code c div 16), hex_digit (code c)]
      else [c])"

definition json_dumps_str :: "string \<Rightarrow> string" where
  "json_dumps_str s = dquote # concat (map json_escape s) @ [dquote]"

text \<open>
  A rich text value belongs to the framework; it is given by what its \<open>to_json_str\<close>
  method returns.
\<close>

datatype rtext = RTextBase (to_json_str: string)

datatype message_text = Str string | RText rtext

fun format_message :: "message_text \<Rightarrow> string" where
  "format_message (RText r) = to_json_str r"
| "format_message (Str s) = json_dumps_str s"

definition get_send_message_command :: "string \<Rightarrow> message_text \<Rightarrow> 'si \<Rightarrow> string" where
  "get_send_message_command target message server_information =
     ''tellraw '' @ target @ '' '' @ format_message message"

definition get_broadcast_message_command :: "message_text \<Rightarrow> 'si \<Rightarrow> string" where
  "get_broadcast_message_command message server_information =
     get_send_message_command ''@a'' message server_information"

subsection \<open>Reading a line of the server's output\<close>

text \<open>
  The argument of \<open>_get_server_stdout_raw_result\<close> may be any object; anything that is
  not a string is refused. Stripping the colour codes is the framework's
  \<open>clean_console_color_code\<close>, taken as the parameter \<open>clean\<close>.
\<close>

datatype pyobject = PyStr string | PyOther

fun get_server_stdout_raw_result :: "(string \<Rightarrow> string) \<Rightarrow> pyobject \<Rightarrow> error + Info" where
  "get_server_stdout_raw_result clean (PyStr text) =
     Inr ((Info_init SERVER text)\<lparr>content := clean text, hour := Some 0, min' := Some 0,
            sec := Some 0\<rparr>)"
| "get_server_stdout_raw_result clean PyOther =
     Inl (TypeError ''The text to parse should be a string'')"

text \<open>
  Modelled from the spec: \<open>parse_server_stdout\<close> of the framework's base class, which the
  handler calls through \<open>super()\<close>, is not part of the source tree. It classifies the raw
  line and hands the record to the content parser; a failure of either is passed on.
\<close>

definition super_parse_server_stdout :: "(string \<Rightarrow> string) \<Rightarrow> struct_time \<Rightarrow> pyobject
    \<Rightarrow> error + Info" where
  "super_parse_server_stdout clean t text =
     (case get_server_stdout_raw_result clean text of
        Inl e \<Rightarrow> Inl e
      | Inr info \<Rightarrow>
          (case content_parse t info of
             (Inl e, info') \<Rightarrow> Inl e
           | (Inr u, info') \<Rightarrow> Inr info'))"

text \<open>The loop over the chat patterns: the first one that yields a valid name wins.\<close>

fun player_message_loop :: "parser list \<Rightarrow> Info \<Rightarrow> error + Info" where
  "player_message_loop [] result = Inr result"
| "player_message_loop (p # ps) result =
     (case run_parser p (content result) of
        None \<Rightarrow> player_message_loop ps result
      | Some parsed \<Rightarrow>
          (case getitem parsed ''name'' of
             Inl e \<Rightarrow> Inl e
           | Inr name \<Rightarrow>
               if verify_player_name name
               then (case getitem parsed ''message'' of
                       Inl e \<Rightarrow> Inl e
                     | Inr message \<Rightarrow> Inr (result\<lparr>player := Some name, content := message\<rparr>))
               else player_message_loop ps result))"

definition parse_server_stdout :: "(string \<Rightarrow> string) \<Rightarrow> struct_time \<Rightarrow> pyobject
    \<Rightarrow> error + Info" where
  "parse_server_stdout clean t text =
     (case super_parse_server_stdout clean t text of
        Inl e \<Rightarrow> Inl e
      | Inr result \<Rightarrow> player_message_loop get_player_message_parsers result)"

subsection \<open>Queries on a parsed record\<close>

text \<open>
  Each query receives the record by reference; the model returns the record as the call
  leaves it beside the answer.
\<close>

text \<open>\<^verbatim>\<open>(?P<name>[^ ]+) joined the game\<close>\<close>

definition player_joined_regex :: rx where
  "player_joined_regex = cat [Group ''name'' (Rep (not_chr CHR '' '') 1 None), Lit '' joined the game'']"

definition parse_player_joined :: "Info \<Rightarrow> (error + string option) \<times> Info" where
  "parse_player_joined info =
     (if \<not> is_user info then
        (case fullmatch player_joined_regex (content info) of
           Some m \<Rightarrow>
             (case getitem m ''name'' of
                Inl e \<Rightarrow> (Inl e, info)
              | Inr name \<Rightarrow>
                  if verify_player_name name then (Inr (Some name), info)
                  else (Inr None, info))
         | None \<Rightarrow> (Inr None, info))
      else (Inr None, info))"

text \<open>\<^verbatim>\<open>(?P<name>[^ ]+) left the game\<close>\<close>

definition player_left_regex :: rx where
  "player_left_regex = cat [Group ''name'' (Rep (not_chr CHR '' '') 1 None), Lit '' left the game'']"

definition parse_player_left :: "Info \<Rightarrow> (error + string option) \<times> Info" where
  "parse_player_left info =
     (if \<not> is_user info then
        (case fullmatch player_left_regex (content info) of
           Some m \<Rightarrow>
             (case getitem m ''name'' of
                Inl e \<Rightarrow> (Inl e, info)
              | Inr name \<Rightarrow>
                  if verify_player_name name then (Inr (Some name), info)
                  else (Inr None, info))
         | None \<Rightarrow> (Inr None, info))
      else (Inr None, info))"

text \<open>
  \<^verbatim>\<open>Starting Pumpkin ([^ ]+) \([a-z0-9_]{8}\) for Minecraft (?P<version>.+) \(Protocol (d+)\)\<close>
  The last group is \<open>d+\<close>, one or more letters \<open>d\<close>.
\<close>

definition server_version_regex :: rx where
  "server_version_regex =
     cat [Lit ''Starting Pumpkin '', NGroup (Rep (not_chr CHR '' '') 1 None), Lit '' ('',
          Rep build_char 8 (Some 8), Lit '') for Minecraft '',
          Group ''version'' (Rep dot 1 None), Lit '' (Protocol '',
          NGroup (Rep (is_chr CHR ''d'') 1 None), Lit '')'']"

definition parse_server_version :: "Info \<Rightarrow> (error + string option) \<times> Info" where
  "parse_server_version info =
     (if \<not> is_user info then
        (case fullmatch server_version_regex (content info) of
           Some m \<Rightarrow>
             (case getitem m ''version'' of
                Inl e \<Rightarrow> (Inl e, info)
              | Inr version \<Rightarrow> (Inr (Some version), info))
         | None \<Rightarrow> (Inr None, info))
      else (Inr None, info))"

text \<open>
  \<^verbatim>\<open>You now can connect to the server; listening on (?P<ip>\S+):(?P<port>\d+)\<close>
  The interpreter's limit on integer texts, which \<open>int(m['port'])\<close> is subject to, is the
  parameter \<open>max_str_digits\<close>.
\<close>

definition server_address_regex :: rx where
  "server_address_regex =
     cat [Lit ''You now can connect to the server; listening on '',
          Group ''ip'' (Rep nonspace 1 None), Lit '':'', Group ''port'' (Rep digit 1 None)]"

definition parse_server_address :: "nat \<Rightarrow> Info \<Rightarrow> (error + (string \<times> int) option) \<times> Info" where
  "parse_server_address max_str_digits info =
     (if \<not> is_user info then
        (case fullmatch server_address_regex (content info) of
           Some m \<Rightarrow>
             (case getitem m ''ip'' of
                Inl e \<Rightarrow> (Inl e, info)
              | Inr ip \<Rightarrow>
                  (case getitem m ''port'' of
                     Inl e \<Rightarrow> (Inl e, info)
                   | Inr port \<Rightarrow>
                       (case py_int max_str_digits port of
                          Inl e \<Rightarrow> (Inl e, info)
                        | Inr n \<Rightarrow> (Inr (Some (ip, n)), info))))
         | None \<Rightarrow> (Inr None, info))
      else (Inr None, info))"

definition test_server_startup_done :: "Info \<Rightarrow> bool \<times> Info" where
  "test_server_startup_done info =
     (is_from_server info \<and> fullmatch server_address_regex (content info) \<noteq> None, info)"

text \<open>\<^verbatim>\<open>RCON running on [\w.]+:\d+\<close>\<close>

definition rcon_started_regex :: rx where
  "rcon_started_regex =
     cat [Lit ''RCON running on '', Rep word_or_dot 1 None, Lit '':'', Rep digit 1 None]"

definition test_rcon_started :: "Info \<Rightarrow> bool \<times> Info" where
  "test_rcon_started info =
     (is_from_server info \<and> fullmatch rcon_started_regex (content info) \<noteq> None, info)"

text \<open>\<^verbatim>\<open>Stopping the server\<close>\<close>

definition server_stopping_regex :: rx where
  "server_stopping_regex = Lit ''Stopping the server''"

definition test_server_stopping :: "Info \<Rightarrow> bool \<times> Info" where
  "test_server_stopping info =
     (is_from_server info \<and> fullmatch server_stopping_regex (content info) \<noteq> None, info)"

section \<open>The shapes the specification speaks of\<close>

text \<open>
  These definitions follow the words of the specification, not the source. A log line
  is \<open>[LEVEL] MESSAGE\<close>, or \<open>[LEVEL] (N) MESSAGE\<close> with a numeric tag \<open>N\<close>.
\<close>

definition log_line :: "string \<Rightarrow> string option \<Rightarrow> string \<Rightarrow> string" where
  "log_line level tag message =
     ''['' @ level @ '']'' @ (case tag of None \<Rightarrow> [] | Some n \<Rightarrow> '' ('' @ n @ '')'')
       @ '' '' @ message"

text \<open>The message itself begins with what reads as a numeric tag: \<open>(digits)\<close> and a blank.\<close>

definition starts_with_tag :: "string \<Rightarrow> bool" where
  "starts_with_tag s = (take 1 s = ''('' \<and> takeWhile digit (drop 1 s) \<noteq> []
     \<and> take 2 (dropWhile digit (drop 1 s)) = '') '')"

text \<open>
  The level is not empty and has no closing bracket, the message is on one line, a tag
  is a decimal number, and a message without a tag does not begin with one.
\<close>

definition valid_log_line :: "string \<Rightarrow> string option \<Rightarrow> string \<Rightarrow> bool" where
  "valid_log_line level tag message =
     (level \<noteq> [] \<and> CHR '']'' \<notin> set level \<and> newline \<notin> set message
      \<and> (case tag of None \<Rightarrow> \<not> starts_with_tag message | Some n \<Rightarrow> n \<noteq> [] \<and> list_all digit n))"

text \<open>
  A JSON string literal, read back as the JSON grammar defines it: a quote, then
  characters that are either written as they are (anything from U+0020 on but the quote
  and the backslash) or escaped with a backslash, then the closing quote.
\<close>

definition hex_val :: "char \<Rightarrow> nat option" where
  "hex_val c =
     (if digit c then Some (code c - 48)
      else if rng CHR ''a'' CHR ''f'' c then Some (code c - 87)
      else if rng CHR ''A'' CHR ''F'' c then Some (code c - 55)
      else None)"

fun json_body :: "string \<Rightarrow> string option" where
  "json_body [] = None"
| "json_body (c # cs) =
     (if c = dquote then (if cs = [] then Some [] else None)
      else if c = bslash then
        (case cs of
           [] \<Rightarrow> None
         | e # r \<Rightarrow>
             if e = dquote then map_option (Cons dquote) (json_body r)
             else if e = bslash then map_option (Cons bslash) (json_body r)
             else if e = CHR ''/'' then map_option (Cons CHR ''/'') (json_body r)
             else if e = CHR ''b'' then map_option (Cons CHR 0x08) (json_body r)
             else if e = CHR ''f'' then map_option (Cons CHR 0x0C) (json_body r)
             else if e = CHR ''n'' then map_option (Cons CHR 0x0A) (json_body r)
             else if e = CHR ''r'' then map_option (Cons CHR 0x0D) (json_body r)
             else if e = CHR ''t'' then map_option (Cons CHR 0x09) (json_body r)
             else if e = CHR ''u'' then
               (case r of
                  h1 # h2 # h3 # h4 # r' \<Rightarrow>
                    (case (hex_val h1, hex_val h2, hex_val h3, hex_val h4) of
                       (Some a, Some b, Some c', Some d) \<Rightarrow>
                         if ((a * 16 + b) * 16 + c') * 16 + d < 256
                         then map_option (Cons (char_of (((a * 16 + b) * 16 + c') * 16 + d)))
                                (json_body r')
                         else None
                     | _ \<Rightarrow> None)
                | _ \<Rightarrow> None)
             else None)
      else if code c < 0x20 then None
      else map_option (Cons c) (json_body cs))"

definition json_loads_str :: "string \<Rightarrow> string option" where
  "json_loads_str s = (case s of [] \<Rightarrow> None | q # r \<Rightarrow> if q = dquote then json_body r else None)"

text \<open>A character that a JSON string literal may hold as it is.\<close>

definition plain_char :: "char \<Rightarrow> bool" where
  "plain_char c = (0x20 \<le> code c \<and> c \<noteq> dquote \<and> c \<noteq> bslash)"

text \<open>The digits a text ends in: on an address line, the text of the port.\<close>

definition trailing_digits :: "string \<Rightarrow> string" where
  "trailing_digits s = rev (takeWhile digit (rev s))"

section \<open>How the matcher behaves on a repetition\<close>

text \<open>
  If the class accepts all of \<open>u\<close>, the repetition cannot go beyond \<open>u\<close>, and the rest of
  the pattern matches what follows \<open>u\<close>, then that is the match found: the longest
  repetition is tried first.
\<close>

lemma rep_match_greedy:
  assumes "list_all p u" and "v = [] \<or> \<not> p (hd v) \<or> hi = Some (n + length u)"
    and "\<And>h. hi = Some h \<Longrightarrow> n + length u \<le> h" and "lo \<le> n + length u"
    and "k v = Some r"
  shows "rep_match p lo hi n (u @ v) k = Some r"
  using assms
proof (induction u arbitrary: n)
  case Nil
  then show ?case by (cases v; cases hi) auto
next
  case (Cons a u)
  have "rep_match p lo hi (Suc n) (u @ v) k = Some r"
    using Cons.prems by (intro Cons.IH) auto
  moreover have "below n hi" using Cons.prems(3) by (cases hi) auto
  ultimately show ?case using Cons.prems(1) by simp
qed

text \<open>
  Conversely, a match splits the input into a repeated part within the bounds and a
  rest on which the remaining pattern succeeded.
\<close>

lemma rep_match_SomeD:
  assumes "rep_match p lo hi n s k = Some r"
  shows "\<exists>u v. s = u @ v \<and> list_all p u \<and> lo \<le> n + length u
     \<and> (\<forall>h. hi = Some h \<longrightarrow> u \<noteq> [] \<longrightarrow> n + length u \<le> h) \<and> k v = Some r"
  using assms
proof (induction s arbitrary: n)
  case Nil
  then show ?case by (auto split: if_splits)
next
  case (Cons x xs)
  show ?case
  proof (cases "p x \<and> below n hi \<and> rep_match p lo hi (Suc n) xs k = Some r")
    case True
    then obtain u v where uv: "xs = u @ v" "list_all p u" "lo \<le> Suc n + length u"
      "\<forall>h. hi = Some h \<longrightarrow> u \<noteq> [] \<longrightarrow> Suc n + length u \<le> h" "k v = Some r"
      using Cons.IH by blast
    have "\<forall>h. hi = Some h \<longrightarrow> n + length (x # u) \<le> h"
      using uv(4) True by (cases hi; cases u) auto
    then show ?thesis using uv True
      by (intro exI[of _ "x # u"] exI[of _ v]) auto
  next
    case False
    then have "lo \<le> n \<and> k (x # xs) = Some r"
      using Cons.prems by (auto split: if_splits option.splits)
    then show ?thesis by (intro exI[of _ "[]"] exI[of _ "x # xs"]) auto
  qed
qed

text \<open>The same two facts for the items of a pattern, and how literals are consumed.\<close>

lemma lit_match: "rx_match (Lit l) (l @ s) m k = k s m"
  by simp

lemma lit_cons_match: "rx_match (Lit [c]) (c # s) m k = k s m"
  by simp

lemma lit_SomeD:
  "rx_match (Lit l) s m k = Some r \<Longrightarrow> \<exists>s'. s = l @ s' \<and> k s' m = Some r"
  by (auto split: if_splits) (metis append_take_drop_id)

lemma rep_greedy:
  assumes "list_all p u" and "v = [] \<or> \<not> p (hd v)" and "lo \<le> length u" and "k v m = Some r"
  shows "rx_match (Rep p lo None) (u @ v) m k = Some r"
  using assms rep_match_greedy[of p u v None 0 lo "\<lambda>s'. k s' m" r] by simp

lemma group_rep_greedy:
  assumes "list_all p u" and "v = [] \<or> \<not> p (hd v)" and "lo \<le> length u"
    and "k v (m(g \<mapsto> u)) = Some r"
  shows "rx_match (Group g (Rep p lo None)) (u @ v) m k = Some r"
  using assms
    rep_match_greedy[of p u v None 0 lo
      "\<lambda>s'. k s' (m(g \<mapsto> take (length (u @ v) - length s') (u @ v)))" r]
  by simp

lemma rep_SomeD:
  assumes "rx_match (Rep p lo hi) s m k = Some r"
  shows "\<exists>u v. s = u @ v \<and> list_all p u \<and> lo \<le> length u
     \<and> (\<forall>h. hi = Some h \<longrightarrow> u \<noteq> [] \<longrightarrow> length u \<le> h) \<and> k v m = Some r"
  using rep_match_SomeD[of p lo hi 0 s "\<lambda>s'. k s' m" r] assms by simp

lemma group_rep_SomeD:
  assumes "rx_match (Group g (Rep p lo hi)) s m k = Some r"
  shows "\<exists>u v. s = u @ v \<and> list_all p u \<and> lo \<le> length u
     \<and> (\<forall>h. hi = Some h \<longrightarrow> u \<noteq> [] \<longrightarrow> length u \<le> h) \<and> k v (m(g \<mapsto> u)) = Some r"
proof -
  from assms have
    "rep_match p lo hi 0 s (\<lambda>s'. k s' (m(g \<mapsto> take (length s - length s') s))) = Some r"
    by simp
  from rep_match_SomeD[OF this] obtain u v where uv: "s = u @ v" "list_all p u" "lo \<le> length u"
    "\<forall>h. hi = Some h \<longrightarrow> u \<noteq> [] \<longrightarrow> length u \<le> h"
    "k v (m(g \<mapsto> take (length s - length v) s)) = Some r"
    by auto
  then have "k v (m(g \<mapsto> u)) = Some r" by simp
  with uv show ?thesis by blast
qed

lemma rx_seq: "rx_match (Seq a b) s m k = rx_match a s m (\<lambda>s' m'. rx_match b s' m' k)"
  by simp

lemma rx_ngroup: "rx_match (NGroup r) s m k = rx_match r s m k"
  by simp

lemma rx_opt:
  "rx_match (Opt r) s m k = (case rx_match r s m k of Some x \<Rightarrow> Some x | None \<Rightarrow> k s m)"
  by simp

lemma rx_lit_nil: "rx_match (Lit []) s m k = k s m"
  by simp

declare rx_match.simps [simp del]

text \<open>The unfoldings by which a pattern is run on a given string.\<close>

lemmas class_defs = code_def rng_def dot_def digit_def space_def nonspace_def word_def
  not_chr_def is_chr_def name_char_def build_char_def word_or_dot_def newline_def

lemmas run_defs = fullmatch_def at_end_def rx_match.simps getitem_def class_defs

text \<open>A match of an item consumes some prefix and hands the rest to what follows.\<close>

lemma rx_match_SomeD:
  assumes "rx_match r s m k = Some x"
  shows "\<exists>u v m'. s = u @ v \<and> k v m' = Some x"
  using assms
proof (induction r arbitrary: s m k)
  case (Lit l)
  from lit_SomeD[OF Lit.prems] show ?case by blast
next
  case (Rep p lo hi)
  from rep_SomeD[OF Rep.prems] show ?case by blast
next
  case (Opt r)
  from Opt.prems have "rx_match r s m k = Some x \<or> k s m = Some x"
    by (auto simp: rx_opt split: option.splits)
  then show ?case
  proof
    assume "rx_match r s m k = Some x"
    from Opt.IH[OF this] show ?thesis .
  next
    assume "k s m = Some x"
    then show ?thesis by (intro exI[of _ "[]"] exI[of _ s] exI[of _ m]) simp
  qed
next
  case (Seq a b)
  from Seq.prems have "rx_match a s m (\<lambda>s' m'. rx_match b s' m' k) = Some x"
    by (simp only: rx_seq)
  from Seq.IH(1)[OF this] obtain u v m' where uv: "s = u @ v" "rx_match b v m' k = Some x"
    by blast
  from Seq.IH(2)[OF uv(2)] obtain u' v' m'' where "v = u' @ v'" "k v' m'' = Some x" by blast
  with uv(1) show ?case by (intro exI[of _ "u @ u'"] exI[of _ v'] exI[of _ m'']) simp
next
  case (Group g r)
  from Group.prems have
    "rx_match r s m (\<lambda>s' m'. k s' (m'(g \<mapsto> take (length s - length s') s))) = Some x"
    by (simp add: rx_match.simps)
  from Group.IH[OF this] show ?case by blast
next
  case (NGroup r)
  from NGroup.prems have "rx_match r s m k = Some x" by (simp only: rx_ngroup)
  from NGroup.IH[OF this] show ?case .
qed

lemma rx_cat_append:
  "rx_match (cat (rs @ rs')) s m k = rx_match (cat rs) s m (\<lambda>s' m'. rx_match (cat rs') s' m' k)"
  by (induction rs arbitrary: s m) (simp_all add: rx_seq rx_lit_nil)

section \<open>The name validator\<close>

lemma verify_player_name_iff:
  "verify_player_name s \<longleftrightarrow> 3 \<le> length s \<and> length s \<le> 16 \<and> list_all name_char s"
proof
  assume "verify_player_name s"
  then obtain r where
    "rep_match name_char 3 (Some 16) 0 s (\<lambda>s'. at_end s' Map.empty) = Some r"
    by (auto simp: verify_player_name_def fullmatch_def player_name_regex_def rx_match.simps)
  from rep_match_SomeD[OF this] obtain u v where
    "s = u @ v" "list_all name_char u" "3 \<le> length u" "u \<noteq> [] \<longrightarrow> length u \<le> 16"
    "at_end v Map.empty = Some r"
    by auto
  then show "3 \<le> length s \<and> length s \<le> 16 \<and> list_all name_char s"
    by (auto simp: at_end_def split: if_splits)
next
  assume a: "3 \<le> length s \<and> length s \<le> 16 \<and> list_all name_char s"
  have "rep_match name_char 3 (Some 16) 0 (s @ []) (\<lambda>s'. at_end s' Map.empty) = Some Map.empty"
    using a by (intro rep_match_greedy) (auto simp: at_end_def)
  then show "verify_player_name s"
    by (simp add: verify_player_name_def fullmatch_def player_name_regex_def rx_match.simps)
qed

text \<open>
  C5: the name validator is a total, two-valued function, and it accepts exactly the
  strings of 3 to 16 characters all of which are letters a-z or A-Z, digits or the
  underscore. The whole string has to match: a shorter string, a longer string and a
  string with any other character are rejected.
\<close>

theorem verify_player_name_exact:
  "verify_player_name s = (3 \<le> length s \<and> length s \<le> 16 \<and> (\<forall>c \<in> set s. name_char c))"
  by (simp add: verify_player_name_iff list_all_iff)

theorem verify_player_name_exact_witness:
  "verify_player_name ''Steve'' \<and> verify_player_name ''a_1'' \<and> verify_player_name ''ABCDEFGHIJ_12345''
   \<and> \<not> verify_player_name ''ab'' \<and> \<not> verify_player_name ''name!''
   \<and> \<not> verify_player_name ''abcdefghijklmnopq''"
  using verify_player_name_exact[of "''Steve''"] verify_player_name_exact[of "''a_1''"]
    verify_player_name_exact[of "''ABCDEFGHIJ_12345''"] verify_player_name_exact[of "''ab''"]
    verify_player_name_exact[of "''name!''"] verify_player_name_exact[of "''abcdefghijklmnopq''"]
  by (simp add: name_char_def rng_def code_def digit_def)

section \<open>The content parser\<close>

lemma starts_with_tagI:
  assumes "n \<noteq> []" "list_all digit n"
  shows "starts_with_tag (''('' @ n @ '') '' @ w)"
proof -
  have nd: "\<not> digit CHR '')''" by (simp add: digit_def rng_def code_def)
  have "takeWhile digit (n @ CHR '')'' # CHR '' '' # w) = n"
    using assms nd by (simp add: takeWhile_tail list_all_iff)
  moreover have "dropWhile digit (n @ CHR '')'' # CHR '' '' # w) = CHR '')'' # CHR '' '' # w"
    using assms nd by (simp add: dropWhile_append2 list_all_iff)
  ultimately show ?thesis using assms by (simp add: starts_with_tag_def)
qed

lemma content_tail:
  assumes "newline \<notin> set M"
  shows "rx_match (Seq (Lit '' '') (Seq (Group ''content'' (Rep dot 0 None)) (Lit []))) (CHR '' '' # M) m at_end
     = Some (m(''content'' \<mapsto> M))"
proof -
  have "list_all dot M" using assms by (auto simp: list_all_iff dot_def)
  then have "rx_match (Group ''content'' (Rep dot 0 None)) (M @ []) m (\<lambda>s' m'. rx_match (Lit []) s' m' at_end)
     = Some (m(''content'' \<mapsto> M))"
    by (intro group_rep_greedy) (auto simp: at_end_def rx_lit_nil)
  then show ?thesis by (simp add: rx_seq lit_cons_match)
qed

lemma content_fullmatch:
  assumes "valid_log_line L tag M"
  shows "fullmatch get_content_parsing_formatter (log_line L tag M)
     = Some [''logging'' \<mapsto> L, ''content'' \<mapsto> M]"
proof -
  let ?tagrx = "Seq (Lit '' ('') (Seq (NGroup (Rep digit 1 None)) (Seq (Lit '')'') (Lit [])))"
  let ?tail = "Seq (Lit '' '') (Seq (Group ''content'' (Rep dot 0 None)) (Lit []))"
  let ?m = "[''logging'' \<mapsto> L]"
  let ?k = "\<lambda>s' m'. rx_match ?tail s' m' at_end"
  from assms have L: "L \<noteq> []" "list_all (not_chr CHR '']'') L" and M: "newline \<notin> set M"
    by (auto simp: valid_log_line_def list_all_iff not_chr_def)
  let ?rest = "(case tag of None \<Rightarrow> [] | Some n \<Rightarrow> '' ('' @ n @ '')'') @ '' '' @ M"
  have opt: "rx_match (Opt ?tagrx) ?rest ?m ?k = Some (?m(''content'' \<mapsto> M))"
  proof (cases tag)
    case None
    have "rx_match ?tagrx (CHR '' '' # M) ?m ?k = None"
    proof (rule ccontr)
      assume "rx_match ?tagrx (CHR '' '' # M) ?m ?k \<noteq> None"
      then obtain r where r: "rx_match ?tagrx (CHR '' '' # M) ?m ?k = Some r" by auto
      then have "rx_match (Lit '' ('') (CHR '' '' # M) ?m
          (\<lambda>s' m'. rx_match (Seq (NGroup (Rep digit 1 None)) (Seq (Lit '')'') (Lit []))) s' m' ?k) = Some r"
        by (simp only: rx_seq)
      from lit_SomeD[OF this] obtain s1 where s1: "CHR '' '' # M = '' ('' @ s1"
        and r1: "rx_match (Seq (NGroup (Rep digit 1 None)) (Seq (Lit '')'') (Lit []))) s1 ?m ?k = Some r"
        by blast
      from r1 have "rx_match (Rep digit 1 None) s1 ?m
          (\<lambda>s' m'. rx_match (Seq (Lit '')'') (Lit [])) s' m' ?k) = Some r"
        by (simp only: rx_seq rx_ngroup)
      from rep_SomeD[OF this] obtain u v where uv: "s1 = u @ v" "list_all digit u" "1 \<le> length u"
        and r2: "rx_match (Seq (Lit '')'') (Lit [])) v ?m ?k = Some r" by blast
      from r2 have "rx_match (Lit '')'') v ?m (\<lambda>s' m'. rx_match (Lit []) s' m' ?k) = Some r"
        by (simp only: rx_seq)
      from lit_SomeD[OF this] obtain s2 where s2: "v = '')'' @ s2"
        and r3: "rx_match (Lit []) s2 ?m ?k = Some r" by blast
      from r3 have "rx_match (Lit '' '') s2 ?m
          (\<lambda>s' m'. rx_match (Seq (Group ''content'' (Rep dot 0 None)) (Lit [])) s' m' at_end) = Some r"
        by (simp only: rx_seq rx_lit_nil)
      from lit_SomeD[OF this] obtain s3 where s3: "s2 = '' '' @ s3" by blast
      have "M = ''('' @ u @ '') '' @ s3" using s1 uv s2 s3 by simp
      moreover have "u \<noteq> []" using uv(3) by auto
      ultimately have "starts_with_tag M" using starts_with_tagI[of u s3] uv(2) by simp
      with assms None show False by (simp add: valid_log_line_def)
    qed
    then show ?thesis using None content_tail[OF M, of ?m] by (simp add: rx_opt)
  next
    case (Some n)
    with assms have n: "n \<noteq> []" "list_all digit n" by (auto simp: valid_log_line_def)
    have nd: "\<not> digit CHR '')''" by (simp add: digit_def rng_def code_def)
    have "rx_match (Rep digit 1 None) (n @ '') '' @ M) ?m
        (\<lambda>s' m'. rx_match (Seq (Lit '')'') (Lit [])) s' m' ?k) = Some (?m(''content'' \<mapsto> M))"
      using n nd content_tail[OF M, of ?m]
      by (intro rep_greedy) (auto simp: Suc_le_eq rx_seq rx_lit_nil lit_cons_match)
    then have "rx_match ?tagrx ('' ('' @ n @ '') '' @ M) ?m ?k = Some (?m(''content'' \<mapsto> M))"
      using lit_match[of "'' (''"] by (simp add: rx_seq rx_ngroup)
    then show ?thesis using Some by (simp add: rx_opt)
  qed
  have nb: "\<not> not_chr CHR '']'' (hd ('']'' @ ?rest))" by (simp add: not_chr_def)
  have "rx_match (Group ''logging'' (Rep (not_chr CHR '']'') 1 None)) (L @ '']'' @ ?rest) Map.empty
      (\<lambda>s' m'. rx_match (Seq (Lit '']'') (Seq (Opt ?tagrx) ?tail)) s' m' at_end)
      = Some (?m(''content'' \<mapsto> M))"
    using L nb opt by (intro group_rep_greedy) (auto simp: Suc_le_eq rx_seq lit_cons_match)
  then show ?thesis
    by (simp add: fullmatch_def get_content_parsing_formatter_def log_line_def rx_seq lit_cons_match)
qed

lemma content_parse_log_line:
  assumes "valid_log_line L tag M" and "content info = log_line L tag M"
  shows "content_parse t info =
     (Inr (), info\<lparr>hour := Some (tm_hour t), min' := Some (tm_min t), sec := Some (tm_sec t),
        logging_level := Some L, content := M\<rparr>)"
  using assms(2) content_fullmatch[OF assms(1)]
  by (simp add: content_parse_def content_parse_with_def get_content_parsers_def getitem_def)

lemma starts_with_tagD:
  assumes "starts_with_tag R"
  shows "\<exists>N M. N \<noteq> [] \<and> list_all digit N \<and> R = ''('' @ N @ '') '' @ M"
proof -
  let ?N = "takeWhile digit (drop 1 R)" and ?D = "dropWhile digit (drop 1 R)"
  from assms have a: "take 1 R = ''(''" "?N \<noteq> []" "take 2 ?D = '') ''"
    by (auto simp: starts_with_tag_def)
  have e1: "''('' @ drop 1 R = R" using a(1) append_take_drop_id[of 1 R] by metis
  have e2: "?N @ ?D = drop 1 R" by (rule takeWhile_dropWhile_id)
  have e3: "'') '' @ drop 2 ?D = ?D" using a(3) append_take_drop_id[of 2 ?D] by metis
  have "R = ''('' @ ?N @ '') '' @ drop 2 ?D" using e1 e2 e3 by metis
  moreover have "list_all digit ?N" by (auto simp: list_all_iff dest: set_takeWhileD)
  ultimately show ?thesis using a(2) by blast
qed

text \<open>Every line \<open>[LEVEL] REST\<close> is a tagged or an untagged line in exactly this sense.\<close>

lemma log_line_reading:
  assumes "L \<noteq> []" and "CHR '']'' \<notin> set L" and "newline \<notin> set R"
  shows "\<exists>tag M. valid_log_line L tag M \<and> ''['' @ L @ ''] '' @ R = log_line L tag M"
proof (cases "starts_with_tag R")
  case True
  from starts_with_tagD[OF this] obtain N M where
    NM: "N \<noteq> []" "list_all digit N" "R = ''('' @ N @ '') '' @ M" by blast
  with assms have "valid_log_line L (Some N) M \<and> ''['' @ L @ ''] '' @ R = log_line L (Some N) M"
    by (simp add: valid_log_line_def log_line_def)
  then show ?thesis by blast
next
  case False
  with assms have "valid_log_line L None R \<and> ''['' @ L @ ''] '' @ R = log_line L None R"
    by (simp add: valid_log_line_def log_line_def)
  then show ?thesis by blast
qed

text \<open>
  C1: a line has the shape \<open>[LEVEL] MESSAGE\<close>, or \<open>[LEVEL] (N) MESSAGE\<close> when a decimal number
  in parentheses and a blank follow the level. On every such line (LEVEL not empty and
  without a closing bracket, MESSAGE on one line) the content parser succeeds, sets the
  logging level to LEVEL and the content to MESSAGE exactly, and sets hour, minute and
  second to the reading of the clock at the call, whatever the text says. Every text
  \<open>[LEVEL] REST\<close> is such a line, with or without a tag.
\<close>

theorem content_parse_level_message:
  "(valid_log_line L tag M \<and> content info = log_line L tag M \<longrightarrow>
      content_parse t info =
        (Inr (), info\<lparr>hour := Some (tm_hour t), min' := Some (tm_min t), sec := Some (tm_sec t),
           logging_level := Some L, content := M\<rparr>))
   \<and> (L \<noteq> [] \<and> CHR '']'' \<notin> set L \<and> newline \<notin> set R \<and> content info = ''['' @ L @ ''] '' @ R \<longrightarrow>
      (\<exists>tag' M'. valid_log_line L tag' M' \<and> content info = log_line L tag' M'
         \<and> content_parse t info =
           (Inr (), info\<lparr>hour := Some (tm_hour t), min' := Some (tm_min t),
              sec := Some (tm_sec t), logging_level := Some L, content := M'\<rparr>)))"
proof (intro conjI impI)
  assume "valid_log_line L tag M \<and> content info = log_line L tag M"
  then show "content_parse t info =
        (Inr (), info\<lparr>hour := Some (tm_hour t), min' := Some (tm_min t), sec := Some (tm_sec t),
           logging_level := Some L, content := M\<rparr>)"
    using content_parse_log_line by blast
next
  assume a: "L \<noteq> [] \<and> CHR '']'' \<notin> set L \<and> newline \<notin> set R \<and> content info = ''['' @ L @ ''] '' @ R"
  with log_line_reading[of L R] obtain tag' M' where
    r: "valid_log_line L tag' M'" "content info = log_line L tag' M'" by auto
  from content_parse_log_line[OF r, of t] r
  show "\<exists>tag' M'. valid_log_line L tag' M' \<and> content info = log_line L tag' M'
         \<and> content_parse t info =
           (Inr (), info\<lparr>hour := Some (tm_hour t), min' := Some (tm_min t),
              sec := Some (tm_sec t), logging_level := Some L, content := M'\<rparr>)"
    by blast
qed

theorem content_parse_level_message_witness:
  "content_parse \<lparr>tm_hour = 12, tm_min = 30, tm_sec = 15\<rparr>
       (Info_init SERVER ''[INFO] (1) Player joined'')
     = (Inr (), \<lparr>hour = Some 12, min' = Some 30, sec = Some 15,
          raw_content = ''[INFO] (1) Player joined'', content = ''Player joined'',
          player = None, source = SERVER, logging_level = Some ''INFO''\<rparr>)
   \<and> content_parse \<lparr>tm_hour = 12, tm_min = 30, tm_sec = 15\<rparr>
       (Info_init SERVER ''[WARN] 09:00:00 late'')
     = (Inr (), \<lparr>hour = Some 12, min' = Some 30, sec = Some 15,
          raw_content = ''[WARN] 09:00:00 late'', content = ''09:00:00 late'',
          player = None, source = SERVER, logging_level = Some ''WARN''\<rparr>)"
  using content_parse_level_message[of "''INFO''" "Some ''1''" "''Player joined''"
      "Info_init SERVER ''[INFO] (1) Player joined''" "\<lparr>tm_hour = 12, tm_min = 30, tm_sec = 15\<rparr>"
      "''(1) Player joined''"]
    content_parse_level_message[of "''WARN''" None "''09:00:00 late''"
      "Info_init SERVER ''[WARN] 09:00:00 late''" "\<lparr>tm_hour = 12, tm_min = 30, tm_sec = 15\<rparr>"
      "''09:00:00 late''"]
  by (simp add: valid_log_line_def log_line_def starts_with_tag_def Info_init_def class_defs)

text \<open>
  How a line is read when its text after the level begins with \<open>(1)\<close> and a blank: as a
  tagged line, so the tag is not part of the content.
\<close>

lemma content_parse_tag_preferred:
  "content (snd (content_parse \<lparr>tm_hour = 12, tm_min = 30, tm_sec = 15\<rparr>
       (Info_init SERVER ''[INFO] (1) x''))) = ''x''"
  by (simp add: content_parse_def content_parse_with_def get_content_parsers_def
      get_content_parsing_formatter_def Info_init_def run_defs)

section \<open>Unrecognised content\<close>

lemma opt_SomeD:
  "rx_match (Opt r) s m k = Some x \<Longrightarrow> rx_match r s m k = Some x \<or> k s m = Some x"
  by (auto simp: rx_opt split: option.splits)

lemma content_tail_SomeD:
  assumes "rx_match (Seq (Lit '' '') (Seq (Group ''content'' (Rep dot 0 None)) (Lit []))) s m at_end = Some r"
  shows "\<exists>M. s = CHR '' '' # M \<and> list_all dot M \<and> r = m(''content'' \<mapsto> M)"
proof -
  from assms have "rx_match (Lit '' '') s m
      (\<lambda>s' m'. rx_match (Group ''content'' (Rep dot 0 None)) s' m'
         (\<lambda>s'' m''. rx_match (Lit []) s'' m'' at_end)) = Some r"
    by (simp only: rx_seq)
  from lit_SomeD[OF this] obtain s1 where s1: "s = '' '' @ s1"
    and r1: "rx_match (Group ''content'' (Rep dot 0 None)) s1 m
         (\<lambda>s'' m''. rx_match (Lit []) s'' m'' at_end) = Some r" by blast
  from group_rep_SomeD[OF r1] obtain u v where uv: "s1 = u @ v" "list_all dot u"
    and r2: "rx_match (Lit []) v (m(''content'' \<mapsto> u)) at_end = Some r" by blast
  from r2 have "v = [] \<and> r = m(''content'' \<mapsto> u)"
    by (auto simp: rx_lit_nil at_end_def split: if_splits)
  with s1 uv show ?thesis by simp
qed

lemma content_fullmatch_SomeD:
  assumes "fullmatch get_content_parsing_formatter s = Some r"
  shows "\<exists>L M. r = [''logging'' \<mapsto> L, ''content'' \<mapsto> M] \<and> L \<noteq> [] \<and> list_all dot M"
proof -
  let ?tagrx = "Seq (Lit '' ('') (Seq (NGroup (Rep digit 1 None)) (Seq (Lit '')'') (Lit [])))"
  let ?tail = "Seq (Lit '' '') (Seq (Group ''content'' (Rep dot 0 None)) (Lit []))"
  let ?k = "\<lambda>s' m'. rx_match ?tail s' m' at_end"
  from assms have "rx_match (Lit ''['') s Map.empty
      (\<lambda>s' m'. rx_match (Group ''logging'' (Rep (not_chr CHR '']'') 1 None)) s' m'
        (\<lambda>s' m'. rx_match (Lit '']'') s' m' (\<lambda>s' m'. rx_match (Opt ?tagrx) s' m' ?k))) = Some r"
    by (simp add: fullmatch_def get_content_parsing_formatter_def rx_seq)
  from lit_SomeD[OF this] obtain s1 where
    r1: "rx_match (Group ''logging'' (Rep (not_chr CHR '']'') 1 None)) s1 Map.empty
        (\<lambda>s' m'. rx_match (Lit '']'') s' m' (\<lambda>s' m'. rx_match (Opt ?tagrx) s' m' ?k)) = Some r"
    by blast
  from group_rep_SomeD[OF r1] obtain L v where L: "1 \<le> length L"
    and r2: "rx_match (Lit '']'') v [''logging'' \<mapsto> L] (\<lambda>s' m'. rx_match (Opt ?tagrx) s' m' ?k) = Some r"
    by blast
  let ?m = "[''logging'' \<mapsto> L]"
  from lit_SomeD[OF r2] obtain s2 where r3: "rx_match (Opt ?tagrx) s2 ?m ?k = Some r" by blast
  have "\<exists>s3. ?k s3 ?m = Some r"
  proof -
    from opt_SomeD[OF r3] show ?thesis
    proof
      assume "rx_match ?tagrx s2 ?m ?k = Some r"
      then have "rx_match (Lit '' ('') s2 ?m
          (\<lambda>s' m'. rx_match (Rep digit 1 None) s' m'
             (\<lambda>s' m'. rx_match (Lit '')'') s' m' ?k)) = Some r"
        by (simp only: rx_seq rx_ngroup rx_lit_nil)
      from lit_SomeD[OF this] obtain s4 where
        "rx_match (Rep digit 1 None) s4 ?m (\<lambda>s' m'. rx_match (Lit '')'') s' m' ?k) = Some r"
        by blast
      from rep_SomeD[OF this] obtain v4 where "rx_match (Lit '')'') v4 ?m ?k = Some r" by blast
      from lit_SomeD[OF this] show ?thesis by blast
    next
      assume "?k s2 ?m = Some r"
      then show ?thesis by blast
    qed
  qed
  then obtain s3 where "rx_match ?tail s3 ?m at_end = Some r" by blast
  from content_tail_SomeD[OF this] obtain M where "list_all dot M" "r = ?m(''content'' \<mapsto> M)"
    by blast
  with L show ?thesis by (intro exI[of _ L] exI[of _ M]) auto
qed

lemma first_parsed_None_iff:
  "first_parsed ps s = None \<longleftrightarrow> (\<forall>p \<in> set ps. run_parser p s = None)"
  by (induction ps) (auto split: option.splits)

lemma content_parse_with_unrecognized:
  assumes "first_parsed parsers (content info) = None"
  shows "content_parse_with parsers t info
     = (Inl (ValueError (''Unrecognized input: '' @ content info)), info)"
  using assms by (simp add: content_parse_with_def)

lemma content_parse_cases:
  "content_parse t info = (Inl (ValueError (''Unrecognized input: '' @ content info)), info)
   \<or> (\<exists>L M. content_parse t info =
        (Inr (), info\<lparr>hour := Some (tm_hour t), min' := Some (tm_min t), sec := Some (tm_sec t),
           logging_level := Some L, content := M\<rparr>) \<and> L \<noteq> [] \<and> list_all dot M)"
proof (cases "fullmatch get_content_parsing_formatter (content info)")
  case None
  then show ?thesis
    by (simp add: content_parse_def content_parse_with_def get_content_parsers_def)
next
  case (Some r)
  from content_fullmatch_SomeD[OF this] obtain L M where
    "r = [''logging'' \<mapsto> L, ''content'' \<mapsto> M]" "L \<noteq> []" "list_all dot M" by blast
  with Some show ?thesis
    by (auto simp: content_parse_def content_parse_with_def get_content_parsers_def getitem_def)
qed

text \<open>
  C2: when no configured pattern matches the content, the content parser raises a
  \<open>ValueError\<close> that carries the text, and the record is as it was before the call. With
  the pattern of this class the parser either does that or updates timestamp, logging
  level and content together: no record is left half updated.
\<close>

theorem content_parse_unrecognized:
  "((\<forall>p \<in> set parsers. run_parser p (content info) = None) \<longrightarrow>
      content_parse_with parsers t info
        = (Inl (ValueError (''Unrecognized input: '' @ content info)), info))
   \<and> (fullmatch get_content_parsing_formatter (content info) = None \<longrightarrow>
      content_parse t info = (Inl (ValueError (''Unrecognized input: '' @ content info)), info))
   \<and> (content_parse t info = (Inl (ValueError (''Unrecognized input: '' @ content info)), info)
      \<or> (\<exists>L M. content_parse t info =
           (Inr (), info\<lparr>hour := Some (tm_hour t), min' := Some (tm_min t),
              sec := Some (tm_sec t), logging_level := Some L, content := M\<rparr>)))"
  using content_parse_cases[of t info]
  by (auto simp: content_parse_with_unrecognized first_parsed_None_iff content_parse_def
      get_content_parsers_def)

theorem content_parse_unrecognized_witness:
  "fullmatch get_content_parsing_formatter (content (Info_init SERVER ''hello world'')) = None
   \<and> content_parse \<lparr>tm_hour = 12, tm_min = 30, tm_sec = 15\<rparr> (Info_init SERVER ''hello world'')
     = (Inl (ValueError ''Unrecognized input: hello world''), Info_init SERVER ''hello world'')"
  using content_parse_unrecognized[of get_content_parsers "Info_init SERVER ''hello world''"
      "\<lparr>tm_hour = 12, tm_min = 30, tm_sec = 15\<rparr>"]
  by (simp add: get_content_parsers_def get_content_parsing_formatter_def Info_init_def run_defs)

section \<open>The server version\<close>

lemma not_digit_d: "\<not> digit CHR ''d''"
  by (simp add: class_defs)

lemma server_version_SomeD:
  assumes "fullmatch server_version_regex s = Some r"
  shows "\<exists>u. s = u @ ''d)''"
proof -
  let ?first = "[Lit ''Starting Pumpkin '', NGroup (Rep (not_chr CHR '' '') 1 None), Lit '' ('',
          Rep build_char 8 (Some 8), Lit '') for Minecraft '',
          Group ''version'' (Rep dot 1 None), Lit '' (Protocol '']"
  let ?last = "[NGroup (Rep (is_chr CHR ''d'') 1 None), Lit '')'']"
  have eq: "server_version_regex = cat (?first @ ?last)"
    by (simp add: server_version_regex_def)
  have "rx_match (cat ?first) s Map.empty (\<lambda>s' m'. rx_match (cat ?last) s' m' at_end) = Some r"
    using assms unfolding fullmatch_def eq rx_cat_append .
  from rx_match_SomeD[OF this] obtain u v m' where uv: "s = u @ v"
    and r1: "rx_match (cat ?last) v m' at_end = Some r" by blast
  from r1 have "rx_match (Rep (is_chr CHR ''d'') 1 None) v m'
      (\<lambda>s' m'. rx_match (Lit '')'') s' m' at_end) = Some r"
    by (simp add: rx_seq rx_ngroup rx_lit_nil)
  from rep_SomeD[OF this] obtain ds w where ds: "v = ds @ w" "list_all (is_chr CHR ''d'') ds"
    "1 \<le> length ds" and r2: "rx_match (Lit '')'') w m' at_end = Some r" by blast
  from lit_SomeD[OF r2] have w: "w = '')''" by (auto simp: at_end_def split: if_splits)
  from ds have "ds \<noteq> []" by auto
  then have "ds = butlast ds @ [last ds]" by simp
  moreover have "last ds = CHR ''d''"
    using ds(2) \<open>ds \<noteq> []\<close> last_in_set[of ds] by (auto simp: list_all_iff is_chr_def)
  ultimately have "ds = butlast ds @ ''d''" by simp
  then have "s = (u @ butlast ds) @ ''d)''" using uv ds(1) w
    by (metis append.assoc append_Cons append_Nil)
  then show ?thesis by blast
qed

lemma parse_server_version_decimal:
  assumes "N \<noteq> []" and "list_all digit N" and "content info = pre @ '' (Protocol '' @ N @ '')''"
  shows "parse_server_version info = (Inr None, info)"
proof -
  have "fullmatch server_version_regex (content info) = None"
  proof (rule ccontr)
    assume "fullmatch server_version_regex (content info) \<noteq> None"
    then obtain r where "fullmatch server_version_regex (content info) = Some r" by auto
    from server_version_SomeD[OF this] obtain u where u: "content info = u @ ''d)''" by blast
    have "N = butlast N @ [last N]" using assms(1) by simp
    then have "content info = (pre @ '' (Protocol '' @ butlast N) @ [last N, CHR '')'']"
      using assms(3) by (metis append.assoc append_Cons append_Nil)
    with u have "last N = CHR ''d''" by simp
    moreover have "digit (last N)" using assms(1,2) last_in_set[of N] by (auto simp: list_all_iff)
    ultimately show False using not_digit_d by simp
  qed
  then show ?thesis by (simp add: parse_server_version_def)
qed

text \<open>
  C3: the version line ends in \<open>(Protocol N)\<close> with a decimal number \<open>N\<close>, and on such a line
  the extractor is meant to return the Minecraft version. The pattern of the source asks
  for letters \<open>d\<close> where the number stands, so on every line that ends in a decimal protocol
  number the extractor returns no match.
\<close>

theorem parse_server_version_decimal_protocol:
  assumes "N \<noteq> []" and "list_all digit N" and "content info = pre @ '' (Protocol '' @ N @ '')''"
  shows "parse_server_version info = (Inr None, info)"
  using assms by (rule parse_server_version_decimal)

theorem parse_server_version_decimal_protocol_witness:
  "parse_server_version
     (Info_init SERVER ''Starting Pumpkin 0.1.0 (abcdef12) for Minecraft 1.21.4 (Protocol 769)'')
   = (Inr None,
      Info_init SERVER ''Starting Pumpkin 0.1.0 (abcdef12) for Minecraft 1.21.4 (Protocol 769)'')"
  using parse_server_version_decimal_protocol[of "''769''"
      "Info_init SERVER ''Starting Pumpkin 0.1.0 (abcdef12) for Minecraft 1.21.4 (Protocol 769)''"
      "''Starting Pumpkin 0.1.0 (abcdef12) for Minecraft 1.21.4''"]
  by (simp add: Info_init_def class_defs)

text \<open>With letters \<open>d\<close> for the protocol number the same line is recognised.\<close>

lemma parse_server_version_letters:
  "parse_server_version
     (Info_init SERVER ''Starting Pumpkin 0.1.0 (abcdef12) for Minecraft 1.21.4 (Protocol ddd)'')
   = (Inr (Some ''1.21.4''),
      Info_init SERVER ''Starting Pumpkin 0.1.0 (abcdef12) for Minecraft 1.21.4 (Protocol ddd)'')"
  by (simp add: parse_server_version_def server_version_regex_def Info_init_def is_user_def
      is_from_console_def is_player_def is_from_server_def run_defs)

section \<open>Players joining\<close>

lemma name_then_lit_SomeD:
  assumes "fullmatch (cat [Group ''name'' (Rep p lo hi), Lit l]) s = Some r"
  shows "\<exists>u. s = u @ l \<and> r = [''name'' \<mapsto> u]"
proof -
  from assms have "rx_match (Group ''name'' (Rep p lo hi)) s Map.empty
      (\<lambda>s' m'. rx_match (Lit l) s' m' at_end) = Some r"
    by (simp add: fullmatch_def rx_seq rx_lit_nil)
  from group_rep_SomeD[OF this] obtain u v where uv: "s = u @ v"
    and r1: "rx_match (Lit l) v [''name'' \<mapsto> u] at_end = Some r" by blast
  from lit_SomeD[OF r1] have "v = l \<and> r = [''name'' \<mapsto> u]"
    by (auto simp: at_end_def split: if_splits)
  with uv show ?thesis by blast
qed

lemma parse_player_joined_cases:
  "parse_player_joined info = (Inr None, info)
   \<or> (\<exists>name. parse_player_joined info = (Inr (Some name), info) \<and> verify_player_name name
        \<and> \<not> is_user info \<and> content info = name @ '' joined the game'')"
proof (cases "fullmatch player_joined_regex (content info)")
  case None
  then show ?thesis by (simp add: parse_player_joined_def)
next
  case (Some r)
  from name_then_lit_SomeD[OF Some[unfolded player_joined_regex_def]] obtain u where
    "content info = u @ '' joined the game''" "r = [''name'' \<mapsto> u]" by blast
  with Some show ?thesis by (auto simp: parse_player_joined_def getitem_def)
qed

lemma parse_player_joined_invalid:
  assumes "content info = name @ '' joined the game''" and "\<not> verify_player_name name"
  shows "parse_player_joined info = (Inr None, info)"
  using parse_player_joined_cases[of info] assms by auto

lemma parse_player_joined_Steve:
  assumes "\<not> is_user info" and "content info = ''Steve joined the game''"
  shows "parse_player_joined info = (Inr (Some ''Steve''), info)"
  using assms
  by (simp add: parse_player_joined_def player_joined_regex_def verify_player_name_def
      player_name_regex_def run_defs)

text \<open>
  C6: on a record from the server that is not attributed to a player, with the content
  \<open>Steve joined the game\<close>, the extractor yields \<open>Steve\<close>; on \<open>S joined the game\<close> it yields no
  match, because the name is too short. Whenever the name in front of \<open> joined the game\<close>
  fails the validation the answer is no match; the extractor never raises, and a name it
  returns has passed the validation.
\<close>

theorem parse_player_joined_validates:
  "(source info = SERVER \<and> player info = None \<and> content info = ''Steve joined the game''
      \<longrightarrow> parse_player_joined info = (Inr (Some ''Steve''), info))
   \<and> (content info = ''S joined the game'' \<longrightarrow> parse_player_joined info = (Inr None, info))
   \<and> (content info = name @ '' joined the game'' \<and> \<not> verify_player_name name
      \<longrightarrow> parse_player_joined info = (Inr None, info))
   \<and> (\<exists>answer. fst (parse_player_joined info) = Inr answer)
   \<and> (fst (parse_player_joined info) = Inr (Some name) \<longrightarrow> verify_player_name name)"
proof -
  have a: "source info = SERVER \<and> player info = None \<and> content info = ''Steve joined the game''
      \<longrightarrow> parse_player_joined info = (Inr (Some ''Steve''), info)"
    using parse_player_joined_Steve[of info]
    by (simp add: is_user_def is_from_console_def is_player_def)
  have "\<not> verify_player_name ''S''" by (simp add: verify_player_name_iff)
  then have b: "content info = ''S joined the game'' \<longrightarrow> parse_player_joined info = (Inr None, info)"
    using parse_player_joined_invalid[of info "''S''"] by simp
  show ?thesis using a b parse_player_joined_cases[of info] parse_player_joined_invalid[of info name]
    by auto
qed

theorem parse_player_joined_validates_witness:
  "parse_player_joined (Info_init SERVER ''Steve joined the game'')
     = (Inr (Some ''Steve''), Info_init SERVER ''Steve joined the game'')
   \<and> parse_player_joined (Info_init SERVER ''S joined the game'')
     = (Inr None, Info_init SERVER ''S joined the game'')
   \<and> parse_player_joined (Info_init SERVER ''name! joined the game'')
     = (Inr None, Info_init SERVER ''name! joined the game'')"
  using parse_player_joined_validates[of "Info_init SERVER ''Steve joined the game''" "''Steve''"]
    parse_player_joined_validates[of "Info_init SERVER ''S joined the game''" "''S''"]
    parse_player_joined_validates[of "Info_init SERVER ''name! joined the game''" "''name!''"]
    verify_player_name_iff[of "''name!''"]
  by (simp add: Info_init_def class_defs)

section \<open>The server address and the end of the startup\<close>

lemma server_address_SomeD:
  assumes "fullmatch server_address_regex s = Some r"
  shows "\<exists>ip port. r = [''ip'' \<mapsto> ip, ''port'' \<mapsto> port] \<and> port \<noteq> [] \<and> list_all digit port
     \<and> s = ''You now can connect to the server; listening on '' @ ip @ '':'' @ port"
proof -
  let ?pre = "''You now can connect to the server; listening on ''"
  from assms have "rx_match (Lit ?pre) s Map.empty
      (\<lambda>s' m'. rx_match (Group ''ip'' (Rep nonspace 1 None)) s' m'
        (\<lambda>s' m'. rx_match (Lit '':'') s' m'
          (\<lambda>s' m'. rx_match (Group ''port'' (Rep digit 1 None)) s' m' at_end))) = Some r"
    by (simp add: fullmatch_def server_address_regex_def rx_seq rx_lit_nil)
  from lit_SomeD[OF this] obtain s1 where s1: "s = ?pre @ s1"
    and r1: "rx_match (Group ''ip'' (Rep nonspace 1 None)) s1 Map.empty
        (\<lambda>s' m'. rx_match (Lit '':'') s' m'
          (\<lambda>s' m'. rx_match (Group ''port'' (Rep digit 1 None)) s' m' at_end)) = Some r"
    by blast
  from group_rep_SomeD[OF r1] obtain ip v where ip: "s1 = ip @ v"
    and r2: "rx_match (Lit '':'') v [''ip'' \<mapsto> ip]
          (\<lambda>s' m'. rx_match (Group ''port'' (Rep digit 1 None)) s' m' at_end) = Some r"
    by blast
  from lit_SomeD[OF r2] obtain s2 where s2: "v = '':'' @ s2"
    and r3: "rx_match (Group ''port'' (Rep digit 1 None)) s2 [''ip'' \<mapsto> ip] at_end = Some r"
    by blast
  from group_rep_SomeD[OF r3] obtain port w where port: "s2 = port @ w" "list_all digit port"
    "1 \<le> length port" and r4: "at_end w [''ip'' \<mapsto> ip, ''port'' \<mapsto> port] = Some r"
    by blast
  from r4 have "w = [] \<and> r = [''ip'' \<mapsto> ip, ''port'' \<mapsto> port]"
    by (auto simp: at_end_def split: if_splits)
  moreover from port(3) have "port \<noteq> []" by auto
  ultimately show ?thesis using s1 ip s2 port(1,2)
    by (intro exI[of _ ip] exI[of _ port]) simp
qed

lemma trailing_digits_port:
  assumes "list_all digit port"
  shows "trailing_digits (pre @ ip @ '':'' @ port) = port"
proof -
  have nd: "\<not> digit CHR '':''" by (simp add: class_defs)
  have "rev (pre @ ip @ '':'' @ port) = rev port @ CHR '':'' # (rev ip @ rev pre)" by simp
  moreover have "takeWhile digit (rev port @ CHR '':'' # (rev ip @ rev pre)) = rev port"
    using assms nd by (simp add: takeWhile_tail list_all_iff)
  ultimately show ?thesis by (simp add: trailing_digits_def)
qed

text \<open>
  What the address extractor does: no match, a pair of host and port, or the
  \<open>ValueError\<close> of \<open>int\<close> when the text of the port is beyond the interpreter's limit.
\<close>

lemma parse_server_address_cases:
  "(fullmatch server_address_regex (content info) = None \<or> is_user info)
     \<and> parse_server_address max_str_digits info = (Inr None, info)
   \<or> (fullmatch server_address_regex (content info) \<noteq> None \<and> \<not> is_user info)
     \<and> \<not> exceeds_int_limit max_str_digits (trailing_digits (content info))
     \<and> (\<exists>ip n. parse_server_address max_str_digits info = (Inr (Some (ip, n)), info))
   \<or> (fullmatch server_address_regex (content info) \<noteq> None \<and> \<not> is_user info)
     \<and> exceeds_int_limit max_str_digits (trailing_digits (content info))
     \<and> (\<exists>e. parse_server_address max_str_digits info = (Inl (ValueError e), info))"
proof (cases "fullmatch server_address_regex (content info)")
  case None
  then show ?thesis by (simp add: parse_server_address_def)
next
  case (Some r)
  from server_address_SomeD[OF Some] obtain ip port where
    r: "r = [''ip'' \<mapsto> ip, ''port'' \<mapsto> port]" "port \<noteq> []" "list_all digit port"
    and c: "content info = ''You now can connect to the server; listening on '' @ ip @ '':'' @ port"
    by blast
  from c r(3) have t: "trailing_digits (content info) = port"
    using trailing_digits_port[of port "''You now can connect to the server; listening on ''" ip]
    by simp
  show ?thesis
  proof (cases "exceeds_int_limit max_str_digits port")
    case True
    with Some r t show ?thesis by (auto simp: parse_server_address_def getitem_def py_int_def)
  next
    case False
    with Some r t show ?thesis by (auto simp: parse_server_address_def getitem_def py_int_def)
  qed
qed

lemma is_user_iff: "is_user info \<longleftrightarrow> \<not> (is_from_server info \<and> player info = None)"
  by (cases "source info") (auto simp: is_user_def is_from_console_def is_player_def is_from_server_def)

lemma startup_done_iff_address:
  assumes "player info = None"
    and "\<not> exceeds_int_limit max_str_digits (trailing_digits (content info))"
  shows "fst (test_server_startup_done info)
     \<longleftrightarrow> (\<exists>ip n. fst (parse_server_address max_str_digits info) = Inr (Some (ip, n)))"
  using parse_server_address_cases[of info max_str_digits] assms
  by (auto simp: test_server_startup_done_def is_user_iff)

lemma address_imp_startup_done:
  assumes "fst (parse_server_address max_str_digits info) = Inr (Some a)"
  shows "fst (test_server_startup_done info)"
  using parse_server_address_cases[of info max_str_digits] assms
  by (auto simp: test_server_startup_done_def is_user_iff)

text \<open>
  Beyond the limit the conversion of the port raises, which the extractor does not
  catch, although the startup test is true on the same record.
\<close>

lemma py_int_beyond_limit:
  "\<exists>e. py_int 4300 (replicate 4301 CHR ''1'') = Inl (ValueError e)"
  by (simp add: py_int_def exceeds_int_limit_def list_all_iff class_defs)

lemma py_int_at_limit:
  "\<exists>n. py_int 4300 (replicate 4300 CHR ''1'') = Inr n"
  by (simp add: py_int_def exceeds_int_limit_def list_all_iff class_defs)

lemma parse_server_address_overlong_port:
  assumes "player info = None" and "fst (test_server_startup_done info)"
    and "exceeds_int_limit max_str_digits (trailing_digits (content info))"
  shows "\<exists>e. parse_server_address max_str_digits info = (Inl (ValueError e), info)"
  using parse_server_address_cases[of info max_str_digits] assms
  by (auto simp: test_server_startup_done_def is_user_iff)

lemma server_address_example:
  assumes "source info = SERVER" and "player info = None"
    and "content info = ''You now can connect to the server; listening on 0.0.0.0:25565''"
  shows "parse_server_address max_str_digits info = (Inr (Some (''0.0.0.0'', 25565)), info)"
    and "test_server_startup_done info = (True, info)"
  using assms
  by (simp_all add: parse_server_address_def test_server_startup_done_def server_address_regex_def
      py_int_def exceeds_int_limit_def digit_val_def is_user_def is_from_console_def
      is_player_def is_from_server_def run_defs)

text \<open>
  C4, as amended: on every record that is not attributed to a player and whose port is
  within the interpreter's limit on the length of integer texts,
  \<open>test_server_startup_done\<close> is true exactly when \<open>parse_server_address\<close> returns a pair of
  host and port; on every record, \<open>parse_server_address\<close> returning a pair implies that
  \<open>test_server_startup_done\<close> is true. On a record from the server with the content
  \<open>You now can connect to the server; listening on 0.0.0.0:25565\<close> the address is
  \<open>0.0.0.0\<close> with the port 25565 as an integer, and the startup test is true.
\<close>

theorem startup_done_exactly_address:
  "(player info = None \<and> \<not> exceeds_int_limit max_str_digits (trailing_digits (content info)) \<longrightarrow>
      (fst (test_server_startup_done info)
        \<longleftrightarrow> (\<exists>ip n. fst (parse_server_address max_str_digits info) = Inr (Some (ip, n)))))
   \<and> ((\<exists>ip n. fst (parse_server_address max_str_digits info) = Inr (Some (ip, n)))
        \<longrightarrow> fst (test_server_startup_done info))
   \<and> (source info = SERVER \<and> player info = None
        \<and> content info = ''You now can connect to the server; listening on 0.0.0.0:25565''
      \<longrightarrow> parse_server_address max_str_digits info = (Inr (Some (''0.0.0.0'', 25565)), info)
        \<and> test_server_startup_done info = (True, info))"
  using startup_done_iff_address[of info max_str_digits]
    address_imp_startup_done[of max_str_digits info]
    server_address_example(1)[of info max_str_digits] server_address_example(2)[of info]
  by blast

theorem startup_done_exactly_address_witness:
  "parse_server_address 4300
     (Info_init SERVER ''You now can connect to the server; listening on 0.0.0.0:25565'')
     = (Inr (Some (''0.0.0.0'', 25565)),
        Info_init SERVER ''You now can connect to the server; listening on 0.0.0.0:25565'')
   \<and> fst (test_server_startup_done
       (Info_init SERVER ''You now can connect to the server; listening on 0.0.0.0:25565''))
   \<and> \<not> exceeds_int_limit 4300 (trailing_digits
       (content (Info_init SERVER ''You now can connect to the server; listening on 0.0.0.0:25565'')))"
  using startup_done_exactly_address[of
      "Info_init SERVER ''You now can connect to the server; listening on 0.0.0.0:25565''" 4300]
  by (simp add: Info_init_def exceeds_int_limit_def trailing_digits_def class_defs)

text \<open>
  The claim as it is written fails on a chat line: the startup test asks only that the
  record comes from the server, the address extractor also that it is not attributed to
  a player. A player who types the address line into the chat yields such a record.
\<close>

theorem startup_done_exactly_address_counterexample:
  "parse_server_stdout id \<lparr>tm_hour = 12, tm_min = 30, tm_sec = 15\<rparr>
     (PyStr ''[INFO] <chat> Alice: You now can connect to the server; listening on 0.0.0.0:25565'')
   = Inr \<lparr>hour = Some 12, min' = Some 30, sec = Some 15,
       raw_content = ''[INFO] <chat> Alice: You now can connect to the server; listening on 0.0.0.0:25565'',
       content = ''You now can connect to the server; listening on 0.0.0.0:25565'',
       player = Some ''Alice'', source = SERVER, logging_level = Some ''INFO''\<rparr>
   \<and> fst (test_server_startup_done
       \<lparr>hour = Some 12, min' = Some 30, sec = Some 15,
        raw_content = ''[INFO] <chat> Alice: You now can connect to the server; listening on 0.0.0.0:25565'',
        content = ''You now can connect to the server; listening on 0.0.0.0:25565'',
        player = Some ''Alice'', source = SERVER, logging_level = Some ''INFO''\<rparr>)
   \<and> fst (parse_server_address 4300
       \<lparr>hour = Some 12, min' = Some 30, sec = Some 15,
        raw_content = ''[INFO] <chat> Alice: You now can connect to the server; listening on 0.0.0.0:25565'',
        content = ''You now can connect to the server; listening on 0.0.0.0:25565'',
        player = Some ''Alice'', source = SERVER, logging_level = Some ''INFO''\<rparr>) = Inr None"
  by (simp add: parse_server_stdout_def super_parse_server_stdout_def content_parse_def
      content_parse_with_def get_content_parsers_def get_content_parsing_formatter_def
      get_player_message_parsers_def get_player_message_parsing_formatter_def
      verify_player_name_def player_name_regex_def Info_init_def
      parse_server_address_def test_server_startup_done_def server_address_regex_def
      is_user_def is_from_console_def is_player_def is_from_server_def run_defs)

section \<open>Chat lines\<close>

lemma name_char_not_colon: "name_char c \<Longrightarrow> not_chr CHR '':'' c"
  by (auto simp: class_defs)

lemma chat_fullmatch:
  assumes "verify_player_name NAME" and "list_all dot MESSAGE"
  shows "fullmatch (cat [Lit ''<chat> '', Group ''name'' (Rep (not_chr CHR '':'') 1 None), Lit '': '',
           Group ''message'' (Rep dot 0 None)]) (''<chat> '' @ NAME @ '': '' @ MESSAGE)
     = Some [''name'' \<mapsto> NAME, ''message'' \<mapsto> MESSAGE]"
proof -
  from assms(1) have N: "1 \<le> length NAME" "list_all (not_chr CHR '':'') NAME"
    by (auto simp: verify_player_name_iff list_all_iff name_char_not_colon)
  have msg: "rx_match (Group ''message'' (Rep dot 0 None)) (MESSAGE @ []) [''name'' \<mapsto> NAME]
      (\<lambda>s' m'. rx_match (Lit []) s' m' at_end) = Some [''name'' \<mapsto> NAME, ''message'' \<mapsto> MESSAGE]"
    using assms(2) by (intro group_rep_greedy) (auto simp: rx_lit_nil at_end_def)
  have nb: "\<not> not_chr CHR '':'' (hd ('': '' @ MESSAGE))" by (simp add: not_chr_def)
  have "rx_match (Group ''name'' (Rep (not_chr CHR '':'') 1 None)) (NAME @ '': '' @ MESSAGE) Map.empty
      (\<lambda>s' m'. rx_match (Lit '': '') s' m'
         (\<lambda>s' m'. rx_match (Group ''message'' (Rep dot 0 None)) s' m'
            (\<lambda>s' m'. rx_match (Lit []) s' m' at_end)))
      = Some [''name'' \<mapsto> NAME, ''message'' \<mapsto> MESSAGE]"
    using N nb msg lit_match[of "'': ''" MESSAGE]
    by (intro group_rep_greedy) auto
  then show ?thesis
    using lit_match[of "''<chat> ''" "NAME @ '': '' @ MESSAGE"]
    by (simp add: fullmatch_def rx_seq)
qed

lemma chat_fullmatch_SomeD:
  assumes "fullmatch (cat [Lit ''<chat> '', Group ''name'' (Rep (not_chr CHR '':'') 1 None), Lit '': '',
           Group ''message'' (Rep dot 0 None)]) s = Some r"
  shows "\<exists>u w. r = [''name'' \<mapsto> u, ''message'' \<mapsto> w] \<and> s = ''<chat> '' @ u @ '': '' @ w
     \<and> CHR '':'' \<notin> set u"
proof -
  from assms have "rx_match (Lit ''<chat> '') s Map.empty
      (\<lambda>s' m'. rx_match (Group ''name'' (Rep (not_chr CHR '':'') 1 None)) s' m'
        (\<lambda>s' m'. rx_match (Lit '': '') s' m'
          (\<lambda>s' m'. rx_match (Group ''message'' (Rep dot 0 None)) s' m' at_end))) = Some r"
    by (simp add: fullmatch_def rx_seq rx_lit_nil)
  from lit_SomeD[OF this] obtain s1 where s1: "s = ''<chat> '' @ s1"
    and r1: "rx_match (Group ''name'' (Rep (not_chr CHR '':'') 1 None)) s1 Map.empty
        (\<lambda>s' m'. rx_match (Lit '': '') s' m'
          (\<lambda>s' m'. rx_match (Group ''message'' (Rep dot 0 None)) s' m' at_end)) = Some r"
    by blast
  from group_rep_SomeD[OF r1] obtain u v where u: "s1 = u @ v" "list_all (not_chr CHR '':'') u"
    and r2: "rx_match (Lit '': '') v [''name'' \<mapsto> u]
          (\<lambda>s' m'. rx_match (Group ''message'' (Rep dot 0 None)) s' m' at_end) = Some r"
    by blast
  from lit_SomeD[OF r2] obtain s2 where s2: "v = '': '' @ s2"
    and r3: "rx_match (Group ''message'' (Rep dot 0 None)) s2 [''name'' \<mapsto> u] at_end = Some r"
    by blast
  from group_rep_SomeD[OF r3] obtain w x where w: "s2 = w @ x"
    and r4: "at_end x [''name'' \<mapsto> u, ''message'' \<mapsto> w] = Some r"
    by blast
  from r4 have "x = [] \<and> r = [''name'' \<mapsto> u, ''message'' \<mapsto> w]"
    by (auto simp: at_end_def split: if_splits)
  moreover have "CHR '':'' \<notin> set u" using u(2) by (auto simp: list_all_iff not_chr_def)
  ultimately show ?thesis using s1 u(1) s2 w
    by (intro exI[of _ u] exI[of _ w]) simp
qed

lemma takeWhile_before_char: "c \<notin> set u \<Longrightarrow> takeWhile (\<lambda>a. a \<noteq> c) (u @ c # x) = u"
  by (induction u) auto

lemma same_before_char:
  assumes "u @ c # x = v @ c # y" and "c \<notin> set u" and "c \<notin> set v"
  shows "u = v"
  using assms takeWhile_before_char[of c u x] takeWhile_before_char[of c v y] by simp

lemma player_message_loop_cases:
  "player_message_loop get_player_message_parsers result = Inr result
   \<or> (\<exists>name message. content result = ''<chat> '' @ name @ '': '' @ message
        \<and> verify_player_name name
        \<and> player_message_loop get_player_message_parsers result
            = Inr (result\<lparr>player := Some name, content := message\<rparr>))"
proof (cases "fullmatch (hd get_player_message_parsing_formatter) (content result)")
  case None
  then show ?thesis
    by (simp add: get_player_message_parsers_def get_player_message_parsing_formatter_def)
next
  case (Some r)
  from chat_fullmatch_SomeD[OF Some[unfolded get_player_message_parsing_formatter_def list.sel]]
  obtain u w where "r = [''name'' \<mapsto> u, ''message'' \<mapsto> w]"
    "content result = ''<chat> '' @ u @ '': '' @ w" by blast
  with Some show ?thesis
    by (cases "verify_player_name u")
      (auto simp: get_player_message_parsers_def get_player_message_parsing_formatter_def
        getitem_def)
qed

lemma player_message_loop_valid:
  assumes "content result = ''<chat> '' @ NAME @ '': '' @ MESSAGE" and "verify_player_name NAME"
    and "list_all dot MESSAGE"
  shows "player_message_loop get_player_message_parsers result
     = Inr (result\<lparr>player := Some NAME, content := MESSAGE\<rparr>)"
  using assms(1) chat_fullmatch[OF assms(2,3)] assms(2)
  by (simp add: get_player_message_parsers_def get_player_message_parsing_formatter_def getitem_def)

lemma player_message_loop_invalid:
  assumes "content result = ''<chat> '' @ NAME @ '': '' @ MESSAGE" and "CHR '':'' \<notin> set NAME"
    and "\<not> verify_player_name NAME"
  shows "player_message_loop get_player_message_parsers result = Inr result"
proof -
  from player_message_loop_cases[of result] show ?thesis
  proof
    assume "\<exists>name message. content result = ''<chat> '' @ name @ '': '' @ message
        \<and> verify_player_name name
        \<and> player_message_loop get_player_message_parsers result
            = Inr (result\<lparr>player := Some name, content := message\<rparr>)"
    then obtain name message where nm: "content result = ''<chat> '' @ name @ '': '' @ message"
      "verify_player_name name" by blast
    then have "CHR '':'' \<notin> set name"
      using name_char_not_colon by (auto simp: verify_player_name_iff list_all_iff not_chr_def)
    moreover have "''<chat> '' @ name @ '': '' @ message = ''<chat> '' @ NAME @ '': '' @ MESSAGE"
      using nm(1) assms(1) by (rule trans[OF sym])
    then have "name @ CHR '':'' # CHR '' '' # message = NAME @ CHR '':'' # CHR '' '' # MESSAGE"
      by simp
    ultimately have "name = NAME"
      using assms(2) by (rule_tac same_before_char[of name "CHR '':''" _ NAME])
    with nm(2) assms(3) show ?thesis by simp
  qed
qed

lemma super_parse_server_stdout_Inr:
  assumes "super_parse_server_stdout clean t line = Inr result"
  shows "list_all dot (content result) \<and> player result = None \<and> source result = SERVER"
proof -
  from assms obtain raw where tx: "line = PyStr raw"
    by (cases line) (auto simp: super_parse_server_stdout_def)
  let ?info = "(Info_init SERVER raw)\<lparr>content := clean raw, hour := Some 0, min' := Some 0,
            sec := Some 0\<rparr>"
  from content_parse_cases[of t ?info] assms tx show ?thesis
    by (auto simp: super_parse_server_stdout_def Info_init_def)
qed

text \<open>
  C7: when the parsed content of a line of the server's output is the chat marker, a
  NAME, a colon with a blank and a MESSAGE, and NAME passes the name validation, the
  record returned has the player NAME and the content MESSAGE; a line whose content
  is the chat marker and \<open>Alice: hello world\<close> yields the name \<open>Alice\<close> and the message
  \<open>hello world\<close>. When the name in front of the colon fails the validation, or no reading
  of the content has a valid name, the player stays unset and the content is the parsed
  content.
\<close>

theorem parse_server_stdout_chat:
  "(super_parse_server_stdout clean t line = Inr result
      \<and> content result = ''<chat> '' @ NAME @ '': '' @ MESSAGE \<and> verify_player_name NAME
     \<longrightarrow> parse_server_stdout clean t line = Inr (result\<lparr>player := Some NAME, content := MESSAGE\<rparr>))
   \<and> (super_parse_server_stdout clean t line = Inr result
      \<and> content result = ''<chat> '' @ NAME @ '': '' @ MESSAGE \<and> CHR '':'' \<notin> set NAME
      \<and> \<not> verify_player_name NAME
     \<longrightarrow> parse_server_stdout clean t line = Inr result \<and> player result = None)
   \<and> (super_parse_server_stdout clean t line = Inr result
      \<and> (\<forall>n msg. content result = ''<chat> '' @ n @ '': '' @ msg \<longrightarrow> \<not> verify_player_name n)
     \<longrightarrow> parse_server_stdout clean t line = Inr result \<and> player result = None)
   \<and> (clean raw = ''[INFO] <chat> Alice: hello world''
     \<longrightarrow> parse_server_stdout clean t (PyStr raw)
          = Inr \<lparr>hour = Some (tm_hour t), min' = Some (tm_min t), sec = Some (tm_sec t),
              raw_content = raw, content = ''hello world'', player = Some ''Alice'',
              source = SERVER, logging_level = Some ''INFO''\<rparr>)"
proof (intro conjI impI)
  assume a: "super_parse_server_stdout clean t line = Inr result
      \<and> content result = ''<chat> '' @ NAME @ '': '' @ MESSAGE \<and> verify_player_name NAME"
  with super_parse_server_stdout_Inr[of clean t line result] have "list_all dot MESSAGE" by simp
  with a player_message_loop_valid[of result NAME MESSAGE]
  show "parse_server_stdout clean t line = Inr (result\<lparr>player := Some NAME, content := MESSAGE\<rparr>)"
    by (simp add: parse_server_stdout_def)
next
  assume a: "super_parse_server_stdout clean t line = Inr result
      \<and> content result = ''<chat> '' @ NAME @ '': '' @ MESSAGE \<and> CHR '':'' \<notin> set NAME
      \<and> \<not> verify_player_name NAME"
  with player_message_loop_invalid[of result NAME MESSAGE]
  show "parse_server_stdout clean t line = Inr result"
    by (simp add: parse_server_stdout_def)
  from a super_parse_server_stdout_Inr[of clean t line result] show "player result = None" by simp
next
  assume a: "super_parse_server_stdout clean t line = Inr result
      \<and> (\<forall>n msg. content result = ''<chat> '' @ n @ '': '' @ msg \<longrightarrow> \<not> verify_player_name n)"
  with player_message_loop_cases[of result]
  show "parse_server_stdout clean t line = Inr result"
    by (auto simp: parse_server_stdout_def)
  from a super_parse_server_stdout_Inr[of clean t line result] show "player result = None" by simp
next
  assume a: "clean raw = ''[INFO] <chat> Alice: hello world''"
  let ?info = "(Info_init SERVER raw)\<lparr>content := clean raw, hour := Some 0, min' := Some 0,
            sec := Some 0\<rparr>"
  have v: "valid_log_line ''INFO'' None ''<chat> Alice: hello world''"
    by (simp add: valid_log_line_def starts_with_tag_def class_defs)
  have "content ?info = log_line ''INFO'' None ''<chat> Alice: hello world''"
    using a by (simp add: log_line_def)
  from content_parse_log_line[OF v this, of t]
  have s: "super_parse_server_stdout clean t (PyStr raw)
      = Inr (?info\<lparr>hour := Some (tm_hour t), min' := Some (tm_min t), sec := Some (tm_sec t),
        logging_level := Some ''INFO'', content := ''<chat> Alice: hello world''\<rparr>)"
    by (simp add: super_parse_server_stdout_def)
  have "verify_player_name ''Alice''" by (simp add: verify_player_name_iff class_defs)
  moreover have "list_all dot ''hello world''" by (simp add: class_defs)
  ultimately show "parse_server_stdout clean t (PyStr raw)
          = Inr \<lparr>hour = Some (tm_hour t), min' = Some (tm_min t), sec = Some (tm_sec t),
              raw_content = raw, content = ''hello world'', player = Some ''Alice'',
              source = SERVER, logging_level = Some ''INFO''\<rparr>"
    using s player_message_loop_valid[of _ "''Alice''" "''hello world''"]
    by (simp add: parse_server_stdout_def Info_init_def)
qed

theorem parse_server_stdout_chat_witness:
  "parse_server_stdout id \<lparr>tm_hour = 12, tm_min = 30, tm_sec = 15\<rparr>
       (PyStr ''[INFO] <chat> Alice: hello world'')
     = Inr \<lparr>hour = Some 12, min' = Some 30, sec = Some 15,
         raw_content = ''[INFO] <chat> Alice: hello world'', content = ''hello world'',
         player = Some ''Alice'', source = SERVER, logging_level = Some ''INFO''\<rparr>
   \<and> parse_server_stdout id \<lparr>tm_hour = 12, tm_min = 30, tm_sec = 15\<rparr>
       (PyStr ''[INFO] <chat> Al: hello world'')
     = Inr \<lparr>hour = Some 12, min' = Some 30, sec = Some 15,
         raw_content = ''[INFO] <chat> Al: hello world'', content = ''<chat> Al: hello world'',
         player = None, source = SERVER, logging_level = Some ''INFO''\<rparr>"
proof -
  let ?t = "\<lparr>tm_hour = 12, tm_min = 30, tm_sec = 15\<rparr>"
  let ?r = "\<lparr>hour = Some 12, min' = Some 30, sec = Some 15,
         raw_content = ''[INFO] <chat> Al: hello world'', content = ''<chat> Al: hello world'',
         player = None, source = SERVER, logging_level = Some ''INFO''\<rparr>"
  have s: "super_parse_server_stdout id ?t (PyStr ''[INFO] <chat> Al: hello world'') = Inr ?r"
    by (simp add: super_parse_server_stdout_def content_parse_def content_parse_with_def
        get_content_parsers_def get_content_parsing_formatter_def Info_init_def run_defs)
  have n: "\<not> verify_player_name ''Al''" by (simp add: verify_player_name_iff)
  show ?thesis
    using parse_server_stdout_chat[of id ?t "PyStr ''[INFO] <chat> Al: hello world''" ?r
        "''Al''" "''hello world''" "''[INFO] <chat> Alice: hello world''"] s n
    by simp
qed

section \<open>Outbound messages\<close>

lemma lt16_cases:
  assumes "(n::nat) < 16"
  shows "n \<in> {0, 1, 2, 3, 4, 5, 6, 7, 8, 9, 10, 11, 12, 13, 14, 15}"
  using assms by simp arith

lemma hex_val_hex_digit:
  assumes "n < 16"
  shows "hex_val (hex_digit n) = Some n"
  using lt16_cases[OF assms]
  by (auto simp: hex_digit_def hex_val_def class_defs)

lemma char_of_code: "char_of (code c) = c"
  by (simp add: code_def)

lemma json_body_escape:
  "json_body (json_escape c @ r) = map_option (Cons c) (json_body r)"
proof (cases "code c < 0x20")
  case False
  then show ?thesis
    by (auto simp: json_escape_def bslash_def dquote_def code_def)
next
  case True
  have h1: "hex_val (hex_digit (code c div 16)) = Some (code c div 16)"
    using True by (intro hex_val_hex_digit) simp
  have "hex_digit (code c) = hex_digit (code c mod 16)" by (simp add: hex_digit_def)
  then have h2: "hex_val (hex_digit (code c)) = Some (code c mod 16)"
    using hex_val_hex_digit[of "code c mod 16"] by simp
  have h0: "hex_val CHR ''0'' = Some 0" by (simp add: hex_val_def class_defs)
  have ne: "c \<noteq> bslash" "c \<noteq> dquote"
    using True by (auto simp: bslash_def dquote_def code_def)
  have v: "((0 * 16 + 0) * 16 + code c div 16) * 16 + code c mod 16 = code c" by simp
  show ?thesis
  proof (cases "c \<in> {CHR 0x08, CHR 0x0C, CHR 0x0A, CHR 0x0D, CHR 0x09}")
    case True
    then show ?thesis
      by (auto simp: json_escape_def bslash_def dquote_def code_def)
  next
    case False
    with True ne have "json_escape c
        = [bslash, CHR ''u'', CHR ''0'', CHR ''0'', hex_digit (code c div 16), hex_digit (code c)]"
      by (simp add: json_escape_def)
    then show ?thesis using h0 h1 h2 True char_of_code[of c]
      by (simp add: bslash_def dquote_def v)
  qed
qed

lemma json_body_dumps: "json_body (concat (map json_escape s) @ [dquote]) = Some s"
  by (induction s) (simp_all add: json_body_escape)

lemma json_loads_dumps: "json_loads_str (json_dumps_str s) = Some s"
  by (simp add: json_loads_str_def json_dumps_str_def json_body_dumps)

lemma json_escape_plain: "plain_char c \<Longrightarrow> json_escape c = [c]"
  by (auto simp: plain_char_def json_escape_def code_def)

lemma non_ascii_plain: "0x80 \<le> code c \<Longrightarrow> plain_char c"
  by (auto simp: plain_char_def code_def bslash_def dquote_def)

lemma concat_escape_plain: "list_all plain_char s \<Longrightarrow> concat (map json_escape s) = s"
  by (induction s) (simp_all add: json_escape_plain)

lemma format_message_hi: "format_message (Str ''hi'') = [dquote, CHR ''h'', CHR ''i'', dquote]"
  by (simp add: json_dumps_str_def json_escape_def bslash_def dquote_def code_def)

lemma format_plain_text:
  assumes "\<forall>c \<in> set s. plain_char c"
  shows "format_message (Str s) = dquote # s @ [dquote]"
  using assms concat_escape_plain[of s] by (simp add: json_dumps_str_def list_all_iff)

text \<open>
  C8, as amended: for every plain message \<open>format_message\<close> returns the message as a
  compact JSON string literal: the quoted text with nothing added but the escapes of the
  quote, the backslash and the control characters, which reads back as the message;
  characters beyond ASCII are written as they are. On \<open>hi\<close> the result is the
  four-character string made of a quote, \<open>h\<close>, \<open>i\<close> and a quote.
\<close>

theorem format_message_plain:
  "format_message (Str s) = dquote # concat (map json_escape s) @ [dquote]
   \<and> json_loads_str (format_message (Str s)) = Some s
   \<and> ((\<forall>c \<in> set s. plain_char c) \<longrightarrow> format_message (Str s) = dquote # s @ [dquote])
   \<and> (0x80 \<le> code c \<longrightarrow> plain_char c \<and> json_escape c = [c])
   \<and> format_message (Str ''hi'') = [dquote, CHR ''h'', CHR ''i'', dquote]
   \<and> length (format_message (Str ''hi'')) = 4"
proof (intro conjI impI)
  show "format_message (Str s) = dquote # concat (map json_escape s) @ [dquote]"
    by (simp add: json_dumps_str_def)
  show "json_loads_str (format_message (Str s)) = Some s"
    by (simp add: json_loads_dumps)
  show "format_message (Str s) = dquote # s @ [dquote]" if "\<forall>c \<in> set s. plain_char c"
    using that by (rule format_plain_text)
  show "plain_char c" if "0x80 \<le> code c" using that by (rule non_ascii_plain)
  show "json_escape c = [c]" if "0x80 \<le> code c"
    using that by (intro json_escape_plain non_ascii_plain)
  show "format_message (Str ''hi'') = [dquote, CHR ''h'', CHR ''i'', dquote]"
    by (rule format_message_hi)
  show "length (format_message (Str ''hi'')) = 4"
    by (simp only: format_message_hi) simp
qed

theorem format_message_plain_witness:
  "format_message (Str [CHR ''h'', CHR 0xE9, CHR '' '', CHR 0xFC])
     = [dquote, CHR ''h'', CHR 0xE9, CHR '' '', CHR 0xFC, dquote]
   \<and> json_loads_str (format_message (Str [CHR ''a'', dquote, CHR 0x0A, CHR 0x01]))
     = Some [CHR ''a'', dquote, CHR 0x0A, CHR 0x01]"
  using format_message_plain[of "[CHR ''h'', CHR 0xE9, CHR '' '', CHR 0xFC]" "CHR 0xE9"]
    format_message_plain[of "[CHR ''a'', dquote, CHR 0x0A, CHR 0x01]" "CHR 0xE9"]
  by (simp add: plain_char_def code_def dquote_def bslash_def json_dumps_str_def json_escape_def
      hex_digit_def)

text \<open>The result on \<open>hi\<close> has four characters, not five.\<close>

theorem format_message_plain_counterexample:
  "length (format_message (Str ''hi'')) = 4 \<and> (4::nat) \<noteq> 5"
  by (simp add: json_dumps_str_def json_escape_def bslash_def dquote_def code_def)

section \<open>The commands sent to the server\<close>

text \<open>
  C9: for every target and every message the send command is \<open>tellraw\<close>, the target and
  the formatted message, separated by single blanks, and the broadcast command is the
  send command with the target \<open>@a\<close>.
\<close>

theorem send_message_command_format:
  "get_send_message_command target message si
     = ''tellraw '' @ target @ '' '' @ format_message message
   \<and> get_broadcast_message_command message si = get_send_message_command ''@a'' message si
   \<and> get_broadcast_message_command message si = ''tellraw @a '' @ format_message message"
  by (simp add: get_send_message_command_def get_broadcast_message_command_def)

theorem send_message_command_format_witness:
  "get_send_message_command ''@a'' (Str ''hi'') () = ''tellraw @a '' @ [dquote, CHR ''h'', CHR ''i'', dquote]
   \<and> get_broadcast_message_command (Str ''hi'') () = ''tellraw @a '' @ [dquote, CHR ''h'', CHR ''i'', dquote]
   \<and> get_send_message_command ''Steve'' (RText (RTextBase ''{}'')) () = ''tellraw Steve {}''"
  using send_message_command_format[of "''@a''" "Str ''hi''" "()"]
    send_message_command_format[of "''Steve''" "RText (RTextBase ''{}'')" "()"]
  using format_message_hi by simp

section \<open>The queries leave the record alone\<close>

text \<open>
  C10: each of the queries \<open>parse_player_joined\<close>, \<open>parse_player_left\<close>,
  \<open>parse_server_version\<close>, \<open>parse_server_address\<close>, \<open>test_server_startup_done\<close>,
  \<open>test_rcon_started\<close> and \<open>test_server_stopping\<close> leaves the record it receives as it
  was, whatever it answers.
\<close>

theorem queries_leave_info_unchanged:
  "snd (parse_player_joined info) = info
   \<and> snd (parse_player_left info) = info
   \<and> snd (parse_server_version info) = info
   \<and> snd (parse_server_address max_str_digits info) = info
   \<and> snd (test_server_startup_done info) = info
   \<and> snd (test_rcon_started info) = info
   \<and> snd (test_server_stopping info) = info"
  by (simp add: parse_player_joined_def parse_player_left_def parse_server_version_def
      parse_server_address_def test_server_startup_done_def test_rcon_started_def
      test_server_stopping_def split: option.split sum.split)

theorem queries_leave_info_unchanged_witness:
  "snd (parse_player_joined (Info_init SERVER ''Steve joined the game''))
     = Info_init SERVER ''Steve joined the game''
   \<and> snd (parse_server_address 4300 (Info_init CONSOLE ''stop'')) = Info_init CONSOLE ''stop''
   \<and> snd (test_server_stopping (Info_init SERVER ''Stopping the server''))
     = Info_init SERVER ''Stopping the server''"
  using queries_leave_info_unchanged[of "Info_init SERVER ''Steve joined the game''" 4300]
    queries_leave_info_unchanged[of "Info_init CONSOLE ''stop''" 4300]
    queries_leave_info_unchanged[of "Info_init SERVER ''Stopping the server''" 4300]
  by simp

end
